theory Spec2Isabelle
  imports Complex_Main
begin

section \<open>Python values used by the model\<close>

text \<open>
  Python floats are idealised as \<^typ>\<open>real\<close>, Python integers are \<^typ>\<open>int\<close> or
  \<^typ>\<open>nat\<close> (sizes, counts and indices). Exceptions are values of \<open>error\<close>.
\<close>

datatype error = ZeroDivisionError | IndexError | ValueError | Unsupported

text \<open>\<^verbatim>\<open>int(x)\<close> on a float truncates towards zero.\<close>

definition py_int :: "real \<Rightarrow> int" where
  "py_int x = (if 0 \<le> x then \<lfloor>x\<rfloor> else \<lceil>x\<rceil>)"

text \<open>True division \<^verbatim>\<open>a / b\<close> raises on a zero divisor.\<close>

definition py_truediv :: "real \<Rightarrow> real \<Rightarrow> error + real" where
  "py_truediv a b = (if b = 0 then Inl ZeroDivisionError else Inr (a / b))"

text \<open>Indexing \<^verbatim>\<open>xs[i]\<close> and \<^verbatim>\<open>xs[-1]\<close> raise out of range.\<close>

definition py_nth :: "'a list \<Rightarrow> nat \<Rightarrow> error + 'a" where
  "py_nth xs i = (if i < length xs then Inr (xs ! i) else Inl IndexError)"

definition py_last :: "'a list \<Rightarrow> error + 'a" where
  "py_last xs = (if xs = [] then Inl IndexError else Inr (last xs))"

text \<open>Sequencing of computations that may raise.\<close>

definition ebind :: "error + 'a \<Rightarrow> ('a \<Rightarrow> error + 'b) \<Rightarrow> error + 'b" where
  "ebind m f = (case m of Inl e \<Rightarrow> Inl e | Inr x \<Rightarrow> f x)"

lemma ebind_simps [simp]: "ebind (Inl e) f = Inl e" "ebind (Inr x) f = f x"
  by (simp_all add: ebind_def)

lemma ebind_eq_Inr: "ebind m f = Inr y \<longleftrightarrow> (\<exists>x. m = Inr x \<and> f x = Inr y)"
  by (cases m) auto

section \<open>\<^verbatim>\<open>common_layers.make_divisible\<close>\<close>

text \<open>
  \<^verbatim>\<open>
  def make_divisible(vv, divisor=4, min_value=None):
      if min_value is None:
          min_value = divisor
      new_v = max(min_value, int(vv + divisor / 2) // divisor * divisor)
      # Make sure that round down does not go down by more than 10%.
      if new_v < 0.9 * vv:
          new_v += divisor
      return new_v
  \<close>
\<close>

definition make_divisible :: "real \<Rightarrow> int \<Rightarrow> int option \<Rightarrow> int" where
  "make_divisible vv divisor min_value =
     (let min_value = (case min_value of None \<Rightarrow> divisor | Some m \<Rightarrow> m);
          new_v = max min_value (py_int (vv + real_of_int divisor / 2) div divisor * divisor)
      in if real_of_int new_v < 0.9 * vv then new_v + divisor else new_v)"

lemma round_down_bound:
  fixes vv :: real and d :: int
  assumes "0 \<le> vv" "0 < d"
  shows "vv < real_of_int (py_int (vv + real_of_int d / 2) div d * d + d)"
proof -
  define n where "n = py_int (vv + real_of_int d / 2)"
  have n: "n = \<lfloor>vv + real_of_int d / 2\<rfloor>"
    using assms by (simp add: n_def py_int_def)
  have "vv + real_of_int d / 2 < real_of_int n + 1"
    unfolding n by linarith
  moreover have "n mod d \<le> d - 1" using assms by simp
  then have "real_of_int (n mod d) \<le> real_of_int d - 1" by linarith
  moreover have "n div d * d = n - n mod d"
    by (simp add: algebra_simps minus_mod_eq_mult_div)
  then have "real_of_int (n div d * d + d) =
      real_of_int n - real_of_int (n mod d) + real_of_int d"
    by simp
  moreover have "0 < real_of_int d" using assms by simp
  ultimately have "vv < real_of_int (n div d * d + d)"
    by linarith
  then show ?thesis by (simp add: n_def)
qed



section \<open>The stochastic-depth schedule of the model assemblers\<close>

subsection \<open>\<^verbatim>\<open>coatnet.CoAtNet\<close>\<close>

text \<open>
  \<^verbatim>\<open>
  total_blocks = sum(num_blocks)
  global_block_id = 0
  for stack_id, (num_block, out_channel, block_type) in enumerate(zip(num_blocks, out_channels, block_types)):
      is_conv_block = True if block_type[0].lower() == "c" else False
      ...
      for block_id in range(num_block):
          strides = 2 if block_id == 0 else 1
          conv_short_cut = True if block_id == 0 else False
          ...
          block_drop_rate = drop_connect_rate * global_block_id / total_blocks
          global_block_id += 1
          if is_conv_block: nn = res_MBConv(nn, out_channel, conv_short_cut, strides, ..., block_drop_rate, ...)
          else: nn = res_mhsa(..., block_drop_rate, ...); nn = res_ffn(..., drop_rate=block_drop_rate, ...)
  \<close>
  The model keeps the control flow of the two loops and records, for every block built,
  the arguments that do not depend on the running tensor: the result is the list of
  blocks in construction order (fields prefixed \<open>cb_\<close>). \<open>global_block_id\<close> is
  threaded through as state.
\<close>

record coatnet_block =
  cb_stack_id :: nat
  cb_block_id :: nat
  cb_is_conv_block :: bool
  cb_out_channel :: nat
  cb_strides :: nat
  cb_conv_short_cut :: bool
  cb_drop_rate :: real

fun coatnet_stack ::
  "real \<Rightarrow> nat \<Rightarrow> nat \<Rightarrow> bool \<Rightarrow> nat \<Rightarrow> nat list \<Rightarrow> nat
     \<Rightarrow> error + (coatnet_block list \<times> nat)" where
  "coatnet_stack dcr total_blocks sid is_conv oc [] gid = Inr ([], gid)"
| "coatnet_stack dcr total_blocks sid is_conv oc (bid # ids) gid =
     (case py_truediv (dcr * real gid) (real total_blocks) of
        Inl e \<Rightarrow> Inl e
      | Inr rate \<Rightarrow>
         (case coatnet_stack dcr total_blocks sid is_conv oc ids (gid + 1) of
            Inl e \<Rightarrow> Inl e
          | Inr (bs, gid') \<Rightarrow>
              Inr (\<lparr>cb_stack_id = sid, cb_block_id = bid, cb_is_conv_block = is_conv,
                     cb_out_channel = oc, cb_strides = (if bid = 0 then 2 else 1),
                     cb_conv_short_cut = (bid = 0), cb_drop_rate = rate\<rparr> # bs, gid')))"

fun coatnet_stacks ::
  "real \<Rightarrow> nat \<Rightarrow> (nat \<times> nat \<times> nat \<times> string) list \<Rightarrow> nat
     \<Rightarrow> error + coatnet_block list" where
  "coatnet_stacks dcr total_blocks [] gid = Inr []"
| "coatnet_stacks dcr total_blocks ((sid, num_block, oc, block_type) # rest) gid =
     (case block_type of
        [] \<Rightarrow> Inl IndexError
      | c # _ \<Rightarrow>
         (case coatnet_stack dcr total_blocks sid (c = CHR ''c'' \<or> c = CHR ''C'') oc [0..<num_block] gid of
            Inl e \<Rightarrow> Inl e
          | Inr (bs, gid') \<Rightarrow>
             (case coatnet_stacks dcr total_blocks rest gid' of
                Inl e \<Rightarrow> Inl e
              | Inr bs' \<Rightarrow> Inr (bs @ bs'))))"

definition CoAtNet_blocks ::
  "nat list \<Rightarrow> nat list \<Rightarrow> string list \<Rightarrow> real \<Rightarrow> error + coatnet_block list" where
  "CoAtNet_blocks num_blocks out_channels block_types drop_connect_rate =
     (let total_blocks = sum_list num_blocks
      in coatnet_stacks drop_connect_rate total_blocks
           (enumerate 0 (zip num_blocks (zip out_channels block_types))) 0)"

subsection \<open>\<^verbatim>\<open>volo.VOLO\<close>\<close>

text \<open>
  \<^verbatim>\<open>
  total_blocks = sum(num_blocks)
  global_block_id = 0
  num_block, embed_dim, num_head, mlp_ratio = num_blocks[0], embed_dims[0], num_heads[0], mlp_ratios[0]
  for ii in range(num_block):
      block_drop_rate = drop_connect_rate * global_block_id / total_blocks
      nn = attention_mlp_block(nn, embed_dim, num_head, mlp_ratio=mlp_ratio,
                               attention_type=first_attn_type, drop_rate=block_drop_rate, name=name)
      global_block_id += 1
  ...
  num_block, embed_dim, num_head, mlp_ratio = num_blocks[1], embed_dims[1], num_heads[1], mlp_ratios[1]
  for ii in range(num_block):
      block_drop_rate = drop_connect_rate * global_block_id / total_blocks
      nn = attention_mlp_block(..., attention_type="mhsa", drop_rate=block_drop_rate, name=name)
      global_block_id += 1
  if num_classes == 0:
      ... return model
  ...
  embed_dim, num_head, mlp_ratio = embed_dims[-1], num_heads[-1], mlp_ratios[-1]
  for id in range(classfiers):
      nn = attention_mlp_block(nn, embed_dim=embed_dim, num_head=num_head, mlp_ratio=mlp_ratio,
                               attention_type="class", name=name)
  \<close>
  The class-attention blocks are built without a \<open>drop_rate\<close> argument, so they get
  the default \<open>drop_rate=0\<close> of \<open>attention_mlp_block\<close>. The result lists the calls of
  \<open>attention_mlp_block\<close> in construction order (fields prefixed \<open>vb_\<close>).
\<close>

record volo_block =
  vb_attention_type :: string
  vb_embed_dim :: nat
  vb_num_head :: nat
  vb_mlp_ratio :: nat
  vb_drop_rate :: real

fun volo_stage ::
  "real \<Rightarrow> nat \<Rightarrow> string \<Rightarrow> nat \<Rightarrow> nat \<Rightarrow> nat \<Rightarrow> nat list \<Rightarrow> nat
     \<Rightarrow> error + (volo_block list \<times> nat)" where
  "volo_stage dcr total_blocks attn ed nh mr [] gid = Inr ([], gid)"
| "volo_stage dcr total_blocks attn ed nh mr (ii # ids) gid =
     ebind (py_truediv (dcr * real gid) (real total_blocks)) (\<lambda>block_drop_rate.
     ebind (volo_stage dcr total_blocks attn ed nh mr ids (gid + 1)) (\<lambda>(bs, gid').
       Inr (\<lparr>vb_attention_type = attn, vb_embed_dim = ed, vb_num_head = nh,
              vb_mlp_ratio = mr, vb_drop_rate = block_drop_rate\<rparr> # bs, gid')))"

definition VOLO_blocks ::
  "nat list \<Rightarrow> nat list \<Rightarrow> nat list \<Rightarrow> nat list \<Rightarrow> nat \<Rightarrow> real \<Rightarrow> nat \<Rightarrow> string
     \<Rightarrow> error + volo_block list" where
  "VOLO_blocks num_blocks embed_dims num_heads mlp_ratios num_classes drop_connect_rate
       classfiers first_attn_type =
     (let total_blocks = sum_list num_blocks; global_block_id = 0 in
      ebind (py_nth num_blocks 0) (\<lambda>num_block.
      ebind (py_nth embed_dims 0) (\<lambda>embed_dim.
      ebind (py_nth num_heads 0) (\<lambda>num_head.
      ebind (py_nth mlp_ratios 0) (\<lambda>mlp_ratio.
      ebind (volo_stage drop_connect_rate total_blocks first_attn_type embed_dim num_head
               mlp_ratio [0..<num_block] global_block_id) (\<lambda>(outlook, global_block_id).
      ebind (py_nth num_blocks 1) (\<lambda>num_block.
      ebind (py_nth embed_dims 1) (\<lambda>embed_dim.
      ebind (py_nth num_heads 1) (\<lambda>num_head.
      ebind (py_nth mlp_ratios 1) (\<lambda>mlp_ratio.
      ebind (volo_stage drop_connect_rate total_blocks ''mhsa'' embed_dim num_head
               mlp_ratio [0..<num_block] global_block_id) (\<lambda>(mhsa, global_block_id).
      if num_classes = 0 then Inr (outlook @ mhsa)
      else
        ebind (py_last embed_dims) (\<lambda>embed_dim.
        ebind (py_last num_heads) (\<lambda>num_head.
        ebind (py_last mlp_ratios) (\<lambda>mlp_ratio.
          Inr (outlook @ mhsa @
               map (\<lambda>ii. \<lparr>vb_attention_type = ''class'', vb_embed_dim = embed_dim,
                             vb_num_head = num_head, vb_mlp_ratio = mlp_ratio,
                             vb_drop_rate = 0\<rparr>) [0..<classfiers])))))))))))))))"

subsection \<open>The schedule is linear in the construction index\<close>

lemma coatnet_stack_rates:
  "coatnet_stack dcr total_blocks sid is_conv oc ids gid = Inr (bs, gid') \<Longrightarrow>
     gid' = gid + length ids \<and> length bs = length ids \<and> (ids \<noteq> [] \<longrightarrow> total_blocks \<noteq> 0) \<and>
     (\<forall>i < length bs. cb_drop_rate (bs ! i) = dcr * real (gid + i) / real total_blocks)"
proof (induction ids arbitrary: gid bs)
  case Nil
  then show ?case by simp
next
  case (Cons bid ids)
  from Cons.prems obtain rate bs0 where
    r: "py_truediv (dcr * real gid) (real total_blocks) = Inr rate" and
    s: "coatnet_stack dcr total_blocks sid is_conv oc ids (gid + 1) = Inr (bs0, gid')" and
    b: "bs = \<lparr>cb_stack_id = sid, cb_block_id = bid, cb_is_conv_block = is_conv,
                     cb_out_channel = oc, cb_strides = (if bid = 0 then 2 else 1),
                     cb_conv_short_cut = (bid = 0), cb_drop_rate = rate\<rparr> # bs0"
    by (auto split: sum.splits prod.splits)
  from r have t: "total_blocks \<noteq> 0" and rate: "rate = dcr * real gid / real total_blocks"
    by (auto simp: py_truediv_def split: if_splits)
  from Cons.IH [OF s] have ih: "gid' = gid + 1 + length ids" "length bs0 = length ids"
    "\<forall>i < length bs0. cb_drop_rate (bs0 ! i) = dcr * real (gid + 1 + i) / real total_blocks"
    by auto
  have "\<forall>i < length bs. cb_drop_rate (bs ! i) = dcr * real (gid + i) / real total_blocks"
  proof (intro allI impI)
    fix i assume "i < length bs"
    then show "cb_drop_rate (bs ! i) = dcr * real (gid + i) / real total_blocks"
      using ih(3) rate b by (cases i) auto
  qed
  then show ?case using ih t b by simp
qed

lemma coatnet_stacks_rates:
  "coatnet_stacks dcr total_blocks sts gid = Inr bs \<Longrightarrow>
     length bs = sum_list (map (\<lambda>st. fst (snd st)) sts) \<and> (bs \<noteq> [] \<longrightarrow> total_blocks \<noteq> 0) \<and>
     (\<forall>i < length bs. cb_drop_rate (bs ! i) = dcr * real (gid + i) / real total_blocks)"
proof (induction sts arbitrary: gid bs)
  case Nil
  then show ?case by simp
next
  case (Cons st sts)
  obtain sid nb oc bt where st: "st = (sid, nb, oc, bt)" by (cases st) auto
  from Cons.prems st obtain c cs bs0 gid0 bs1 where
    bt: "bt = c # cs" and
    s0: "coatnet_stack dcr total_blocks sid (c = CHR ''c'' \<or> c = CHR ''C'') oc [0..<nb] gid = Inr (bs0, gid0)" and
    s1: "coatnet_stacks dcr total_blocks sts gid0 = Inr bs1" and
    b: "bs = bs0 @ bs1"
    by (auto split: list.splits sum.splits prod.splits)
  from coatnet_stack_rates [OF s0] have h0: "gid0 = gid + nb" "length bs0 = nb"
    "nb \<noteq> 0 \<longrightarrow> total_blocks \<noteq> 0"
    "\<forall>i < length bs0. cb_drop_rate (bs0 ! i) = dcr * real (gid + i) / real total_blocks"
    by auto
  from Cons.IH [OF s1] have h1:
    "length bs1 = sum_list (map (\<lambda>st. fst (snd st)) sts)" "bs1 \<noteq> [] \<longrightarrow> total_blocks \<noteq> 0"
    "\<forall>i < length bs1. cb_drop_rate (bs1 ! i) = dcr * real (gid0 + i) / real total_blocks"
    by auto
  have "\<forall>i < length bs. cb_drop_rate (bs ! i) = dcr * real (gid + i) / real total_blocks"
  proof (intro allI impI)
    fix i assume i: "i < length bs"
    show "cb_drop_rate (bs ! i) = dcr * real (gid + i) / real total_blocks"
    proof (cases "i < length bs0")
      case True
      then show ?thesis using h0(4) b by (simp add: nth_append)
    next
      case False
      then have "i - length bs0 < length bs1" using i b by simp
      then have "cb_drop_rate (bs1 ! (i - length bs0)) = dcr * real (gid0 + (i - length bs0)) / real total_blocks"
        using h1(3) by blast
      then show ?thesis using False h0(1,2) b by (simp add: nth_append)
    qed
  qed
  moreover have "bs \<noteq> [] \<longrightarrow> total_blocks \<noteq> 0" using h0 h1 b by auto
  ultimately show ?case using h0 h1 b st by simp
qed

lemma sum_list_zip_le:
  "sum_list (map (\<lambda>st. fst (snd st)) (enumerate n (zip xs ys))) \<le> sum_list (xs :: nat list)"
proof (induction xs arbitrary: n ys)
  case Nil
  then show ?case by simp
next
  case (Cons x xs)
  show ?case
  proof (cases ys)
    case Nil
    then show ?thesis by simp
  next
    case (Cons y ys')
    show ?thesis using Cons.IH [of "Suc n" ys'] Cons by simp
  qed
qed


lemma volo_stage_rates:
  "volo_stage dcr total_blocks attn ed nh mr ids gid = Inr (bs, gid') \<Longrightarrow>
     gid' = gid + length ids \<and> length bs = length ids \<and> (ids \<noteq> [] \<longrightarrow> total_blocks \<noteq> 0) \<and>
     (\<forall>i < length bs. vb_drop_rate (bs ! i) = dcr * real (gid + i) / real total_blocks)"
proof (induction ids arbitrary: gid bs)
  case Nil
  then show ?case by simp
next
  case (Cons bid ids)
  from Cons.prems obtain rate bs0 where
    r: "py_truediv (dcr * real gid) (real total_blocks) = Inr rate" and
    s: "volo_stage dcr total_blocks attn ed nh mr ids (gid + 1) = Inr (bs0, gid')" and
    b: "bs = \<lparr>vb_attention_type = attn, vb_embed_dim = ed, vb_num_head = nh,
              vb_mlp_ratio = mr, vb_drop_rate = rate\<rparr> # bs0"
    by (auto simp: ebind_eq_Inr)
  from r have t: "total_blocks \<noteq> 0" and rate: "rate = dcr * real gid / real total_blocks"
    by (auto simp: py_truediv_def split: if_splits)
  from Cons.IH [OF s] have ih: "gid' = gid + 1 + length ids" "length bs0 = length ids"
    "\<forall>i < length bs0. vb_drop_rate (bs0 ! i) = dcr * real (gid + 1 + i) / real total_blocks"
    by auto
  have "\<forall>i < length bs. vb_drop_rate (bs ! i) = dcr * real (gid + i) / real total_blocks"
  proof (intro allI impI)
    fix i assume "i < length bs"
    then show "vb_drop_rate (bs ! i) = dcr * real (gid + i) / real total_blocks"
      using ih(3) rate b by (cases i) auto
  qed
  then show ?case using ih t b by simp
qed

lemma VOLO_blocks_rates:
  assumes "VOLO_blocks num_blocks embed_dims num_heads mlp_ratios num_classes dcr
             classfiers first_attn_type = Inr bs"
  shows "2 \<le> length num_blocks \<and> num_blocks ! 0 + num_blocks ! 1 \<le> length bs \<and>
     (\<forall>i < num_blocks ! 0 + num_blocks ! 1.
        vb_drop_rate (bs ! i) = dcr * real i / real (sum_list num_blocks)) \<and>
     (\<forall>i. num_blocks ! 0 + num_blocks ! 1 \<le> i \<and> i < length bs \<longrightarrow>
        vb_attention_type (bs ! i) = ''class'' \<and> vb_drop_rate (bs ! i) = 0)"
proof -
  define total_blocks where "total_blocks = sum_list num_blocks"
  from assms obtain nb0 ed0 nh0 mr0 outlook g0 nb1 ed1 nh1 mr1 mhsa g1 where
    n0: "py_nth num_blocks 0 = Inr nb0" and
    s0: "volo_stage dcr total_blocks first_attn_type ed0 nh0 mr0 [0..<nb0] 0 = Inr (outlook, g0)" and
    n1: "py_nth num_blocks 1 = Inr nb1" and
    s1: "volo_stage dcr total_blocks ''mhsa'' ed1 nh1 mr1 [0..<nb1] g0 = Inr (mhsa, g1)" and
    rest: "(if num_classes = 0 then Inr (outlook @ mhsa)
      else
        ebind (py_last embed_dims) (\<lambda>embed_dim.
        ebind (py_last num_heads) (\<lambda>num_head.
        ebind (py_last mlp_ratios) (\<lambda>mlp_ratio.
          Inr (outlook @ mhsa @
               map (\<lambda>id. \<lparr>vb_attention_type = ''class'', vb_embed_dim = embed_dim,
                             vb_num_head = num_head, vb_mlp_ratio = mlp_ratio,
                             vb_drop_rate = 0\<rparr>) [0..<classfiers]))))) = Inr bs"
    unfolding VOLO_blocks_def Let_def ebind_eq_Inr total_blocks_def
    by (auto simp: ebind_eq_Inr)
  from n0 n1 have len: "2 \<le> length num_blocks" and nb: "nb0 = num_blocks ! 0" "nb1 = num_blocks ! 1"
    by (auto simp: py_nth_def split: if_splits)
  from volo_stage_rates [OF s0] have h0: "g0 = nb0" "length outlook = nb0"
    "\<forall>i < length outlook. vb_drop_rate (outlook ! i) = dcr * real i / real total_blocks"
    by auto
  from volo_stage_rates [OF s1] have h1: "length mhsa = nb1"
    "\<forall>i < length mhsa. vb_drop_rate (mhsa ! i) = dcr * real (g0 + i) / real total_blocks"
    by auto
  from rest obtain cls where bs: "bs = outlook @ mhsa @ cls" and
    cls: "\<forall>i < length cls. vb_attention_type (cls ! i) = ''class'' \<and> vb_drop_rate (cls ! i) = 0"
    by (auto simp: ebind_eq_Inr split: if_splits)
  have a: "\<forall>i < nb0 + nb1. vb_drop_rate (bs ! i) = dcr * real i / real total_blocks"
  proof (intro allI impI)
    fix i assume i: "i < nb0 + nb1"
    show "vb_drop_rate (bs ! i) = dcr * real i / real total_blocks"
    proof (cases "i < nb0")
      case True
      then show ?thesis using h0 bs by (simp add: nth_append)
    next
      case False
      then have lt: "i - nb0 < length mhsa" using i h1(1) by simp
      then have "vb_drop_rate (mhsa ! (i - nb0)) = dcr * real (g0 + (i - nb0)) / real total_blocks"
        using h1(2) by blast
      moreover have "bs ! i = mhsa ! (i - nb0)"
        using False lt h0(2) bs by (simp add: nth_append)
      ultimately show ?thesis using False h0(1) by simp
    qed
  qed
  have b: "\<forall>i. nb0 + nb1 \<le> i \<and> i < length bs \<longrightarrow>
        vb_attention_type (bs ! i) = ''class'' \<and> vb_drop_rate (bs ! i) = 0"
  proof (intro allI impI)
    fix i assume "nb0 + nb1 \<le> i \<and> i < length bs"
    then have i: "nb0 + nb1 \<le> i" "i < length bs" by simp_all
    have lb: "length bs = nb0 + nb1 + length cls" using bs h0(2) h1(1) by simp
    have "i - (nb0 + nb1) < length cls" using i lb by linarith
    then have "vb_attention_type (cls ! (i - (nb0 + nb1))) = ''class'' \<and>
               vb_drop_rate (cls ! (i - (nb0 + nb1))) = 0"
      using cls by blast
    moreover have "bs ! i = cls ! (i - (nb0 + nb1))"
      using i(1) bs h0(2) h1(1) by (simp add: nth_append)
    ultimately show "vb_attention_type (bs ! i) = ''class'' \<and> vb_drop_rate (bs ! i) = 0"
      by simp
  qed
  have "nb0 + nb1 \<le> length bs" using bs h0 h1 by simp
  then show ?thesis using len a b nb by (simp add: total_blocks_def)
qed


lemma linear_rate_props:
  fixes dcr :: real and i n total_blocks :: nat
  assumes "0 \<le> dcr" "i < n" "n \<le> total_blocks"
  shows "dcr * real i / real total_blocks \<le> dcr"
    and "0 < dcr \<Longrightarrow> dcr * real i / real total_blocks < dcr"
    and "j \<le> i \<Longrightarrow> dcr * real j / real total_blocks \<le> dcr * real i / real total_blocks"
proof -
  have t: "0 < real total_blocks" and it: "real i < real total_blocks"
    using assms by simp_all
  have "dcr * real i \<le> dcr * real total_blocks"
    using assms(1) it by (intro mult_left_mono) simp_all
  then show "dcr * real i / real total_blocks \<le> dcr"
    using t by (simp add: divide_le_eq)
  show "dcr * real i / real total_blocks < dcr" if "0 < dcr"
  proof -
    have "dcr * real i < dcr * real total_blocks"
      using that it by simp
    then show ?thesis using t by (simp add: divide_less_eq)
  qed
  show "dcr * real j / real total_blocks \<le> dcr * real i / real total_blocks" if "j \<le> i"
  proof -
    have "dcr * real j \<le> dcr * real i"
      using assms(1) that by (intro mult_left_mono) simp_all
    then show ?thesis using t by (simp add: divide_right_mono)
  qed
qed

lemma CoAtNet_blocks_rates:
  assumes "CoAtNet_blocks num_blocks out_channels block_types dcr = Inr bs"
  shows "length bs \<le> sum_list num_blocks"
    and "\<forall>i < length bs. cb_drop_rate (bs ! i) = dcr * real i / real (sum_list num_blocks)"
proof -
  let ?sts = "enumerate 0 (zip num_blocks (zip out_channels block_types))"
  from assms have "coatnet_stacks dcr (sum_list num_blocks) ?sts 0 = Inr bs"
    by (simp add: CoAtNet_blocks_def)
  from coatnet_stacks_rates [OF this]
  have l: "length bs = sum_list (map (\<lambda>st. fst (snd st)) ?sts)"
    and r: "\<forall>i < length bs. cb_drop_rate (bs ! i) = dcr * real (0 + i) / real (sum_list num_blocks)"
    by blast+
  show "length bs \<le> sum_list num_blocks"
    using l sum_list_zip_le [of 0 num_blocks "zip out_channels block_types"] by simp
  show "\<forall>i < length bs. cb_drop_rate (bs ! i) = dcr * real i / real (sum_list num_blocks)"
    using r by simp
qed

text \<open>
  Claim C4 (as amended). In every model built by \<open>CoAtNet\<close>, and for the outlook and MHSA
  blocks of every model built by \<open>VOLO\<close> (the \<open>num_blocks[0] + num_blocks[1]\<close> blocks that
  are given a \<open>global_block_id\<close>), the drop rate of the block with 0-based construction
  index \<open>i\<close> equals \<open>drop_connect_rate * i / sum(num_blocks)\<close>; the first rate is 0, and for
  \<open>drop_connect_rate \<ge> 0\<close> the rates are non-decreasing in construction order and at most
  \<open>drop_connect_rate\<close>, strictly less when \<open>drop_connect_rate > 0\<close>. The class-attention
  blocks that \<open>VOLO\<close> builds afterwards have drop rate 0.
\<close>

theorem drop_rate_schedule:
  "(CoAtNet_blocks num_blocks out_channels block_types drop_connect_rate = Inr bs \<longrightarrow>
      (\<forall>i < length bs.
         cb_drop_rate (bs ! i) = drop_connect_rate * real i / real (sum_list num_blocks)
       \<and> cb_drop_rate (bs ! 0) = 0
       \<and> (0 \<le> drop_connect_rate \<longrightarrow>
            (\<forall>j \<le> i. cb_drop_rate (bs ! j) \<le> cb_drop_rate (bs ! i))
          \<and> cb_drop_rate (bs ! i) \<le> drop_connect_rate
          \<and> (0 < drop_connect_rate \<longrightarrow> cb_drop_rate (bs ! i) < drop_connect_rate))))
   \<and> (VOLO_blocks num_blocks embed_dims num_heads mlp_ratios num_classes drop_connect_rate
         classfiers first_attn_type = Inr vs \<longrightarrow>
      num_blocks ! 0 + num_blocks ! 1 \<le> length vs
      \<and> (\<forall>i < num_blocks ! 0 + num_blocks ! 1.
         vb_drop_rate (vs ! i) = drop_connect_rate * real i / real (sum_list num_blocks)
       \<and> vb_drop_rate (vs ! 0) = 0
       \<and> (0 \<le> drop_connect_rate \<longrightarrow>
            (\<forall>j \<le> i. vb_drop_rate (vs ! j) \<le> vb_drop_rate (vs ! i))
          \<and> vb_drop_rate (vs ! i) \<le> drop_connect_rate
          \<and> (0 < drop_connect_rate \<longrightarrow> vb_drop_rate (vs ! i) < drop_connect_rate)))
      \<and> (\<forall>i. num_blocks ! 0 + num_blocks ! 1 \<le> i \<and> i < length vs \<longrightarrow>
            vb_attention_type (vs ! i) = ''class'' \<and> vb_drop_rate (vs ! i) = 0))"
proof (intro conjI impI)
  assume a: "CoAtNet_blocks num_blocks out_channels block_types drop_connect_rate = Inr bs"
  note len = CoAtNet_blocks_rates(1) [OF a] and rate = CoAtNet_blocks_rates(2) [OF a]
  show "\<forall>i < length bs.
         cb_drop_rate (bs ! i) = drop_connect_rate * real i / real (sum_list num_blocks)
       \<and> cb_drop_rate (bs ! 0) = 0
       \<and> (0 \<le> drop_connect_rate \<longrightarrow>
            (\<forall>j \<le> i. cb_drop_rate (bs ! j) \<le> cb_drop_rate (bs ! i))
          \<and> cb_drop_rate (bs ! i) \<le> drop_connect_rate
          \<and> (0 < drop_connect_rate \<longrightarrow> cb_drop_rate (bs ! i) < drop_connect_rate))"
  proof (intro allI impI conjI)
    fix i assume i: "i < length bs"
    show "cb_drop_rate (bs ! i) = drop_connect_rate * real i / real (sum_list num_blocks)"
      using rate i by blast
    have "0 < length bs" using i by (cases bs) simp_all
    then show "cb_drop_rate (bs ! 0) = 0" using rate by simp
    assume d: "0 \<le> drop_connect_rate"
    show "cb_drop_rate (bs ! i) \<le> drop_connect_rate"
      using rate i linear_rate_props(1) [OF d i len] by simp
    show "cb_drop_rate (bs ! i) < drop_connect_rate" if "0 < drop_connect_rate"
      using rate i linear_rate_props(2) [OF d i len that] by simp
    fix j assume j: "j \<le> i"
    then have "j < length bs" using i by simp
    then show "cb_drop_rate (bs ! j) \<le> cb_drop_rate (bs ! i)"
      using rate i linear_rate_props(3) [OF d i len j] by simp
  qed
next
  assume a: "VOLO_blocks num_blocks embed_dims num_heads mlp_ratios num_classes drop_connect_rate
         classfiers first_attn_type = Inr vs"
  let ?n = "num_blocks ! 0 + num_blocks ! 1"
  from VOLO_blocks_rates [OF a] have
    l2: "2 \<le> length num_blocks" and len: "?n \<le> length vs" and
    rate: "\<forall>i < ?n. vb_drop_rate (vs ! i) = drop_connect_rate * real i / real (sum_list num_blocks)" and
    cls: "\<forall>i. ?n \<le> i \<and> i < length vs \<longrightarrow>
            vb_attention_type (vs ! i) = ''class'' \<and> vb_drop_rate (vs ! i) = 0"
    by blast+
  obtain a b rest where nb: "num_blocks = a # b # rest"
    using l2 by (cases num_blocks; cases "tl num_blocks") auto
  then have tot: "?n \<le> sum_list num_blocks" by simp
  show "?n \<le> length vs" by (rule len)
  show "\<forall>i. ?n \<le> i \<and> i < length vs \<longrightarrow>
            vb_attention_type (vs ! i) = ''class'' \<and> vb_drop_rate (vs ! i) = 0" by (rule cls)
  show "\<forall>i < ?n.
         vb_drop_rate (vs ! i) = drop_connect_rate * real i / real (sum_list num_blocks)
       \<and> vb_drop_rate (vs ! 0) = 0
       \<and> (0 \<le> drop_connect_rate \<longrightarrow>
            (\<forall>j \<le> i. vb_drop_rate (vs ! j) \<le> vb_drop_rate (vs ! i))
          \<and> vb_drop_rate (vs ! i) \<le> drop_connect_rate
          \<and> (0 < drop_connect_rate \<longrightarrow> vb_drop_rate (vs ! i) < drop_connect_rate))"
  proof (intro allI impI conjI)
    fix i assume i: "i < ?n"
    show "vb_drop_rate (vs ! i) = drop_connect_rate * real i / real (sum_list num_blocks)"
      using rate i by blast
    have "0 < ?n" using i by linarith
    then show "vb_drop_rate (vs ! 0) = 0" using rate by simp
    assume d: "0 \<le> drop_connect_rate"
    show "vb_drop_rate (vs ! i) \<le> drop_connect_rate"
      using rate i linear_rate_props(1) [OF d i tot] by simp
    show "vb_drop_rate (vs ! i) < drop_connect_rate" if "0 < drop_connect_rate"
      using rate i linear_rate_props(2) [OF d i tot that] by simp
    fix j assume j: "j \<le> i"
    then have "j < ?n" using i by simp
    then show "vb_drop_rate (vs ! j) \<le> vb_drop_rate (vs ! i)"
      using rate i linear_rate_props(3) [OF d i tot j] by simp
  qed
qed

text \<open>
  The claim as stated asks for every rate to be strictly below \<open>drop_connect_rate\<close>. With
  the default \<open>drop_connect_rate = 0\<close> every rate is 0, which is not below 0.
\<close>

theorem drop_rate_strict_counterexample:
  "CoAtNet_blocks [1, 1] [64, 128] [''conv'', ''conv'', ''transfrom'', ''transform''] 0
     = Inr [\<lparr>cb_stack_id = 0, cb_block_id = 0, cb_is_conv_block = True, cb_out_channel = 64,
              cb_strides = 2, cb_conv_short_cut = True, cb_drop_rate = 0\<rparr>,
            \<lparr>cb_stack_id = 1, cb_block_id = 0, cb_is_conv_block = True, cb_out_channel = 128,
              cb_strides = 2, cb_conv_short_cut = True, cb_drop_rate = 0\<rparr>]
   \<and> \<not> cb_drop_rate \<lparr>cb_stack_id = 0, cb_block_id = 0, cb_is_conv_block = True,
          cb_out_channel = 64, cb_strides = 2, cb_conv_short_cut = True, cb_drop_rate = 0\<rparr> < 0"
  by (simp add: CoAtNet_blocks_def py_truediv_def)


theorem drop_rate_schedule_witness:
  "CoAtNet_blocks [2] [64] [''conv''] (1/2)
     = Inr [\<lparr>cb_stack_id = 0, cb_block_id = 0, cb_is_conv_block = True, cb_out_channel = 64,
              cb_strides = 2, cb_conv_short_cut = True, cb_drop_rate = 0\<rparr>,
            \<lparr>cb_stack_id = 0, cb_block_id = 1, cb_is_conv_block = True, cb_out_channel = 64,
              cb_strides = 1, cb_conv_short_cut = False, cb_drop_rate = 1/4\<rparr>]
   \<and> VOLO_blocks [1, 1] [192, 384] [6, 12] [3, 3] 1000 (1/2) 1 ''outlook''
     = Inr [\<lparr>vb_attention_type = ''outlook'', vb_embed_dim = 192, vb_num_head = 6,
              vb_mlp_ratio = 3, vb_drop_rate = 0\<rparr>,
            \<lparr>vb_attention_type = ''mhsa'', vb_embed_dim = 384, vb_num_head = 12,
              vb_mlp_ratio = 3, vb_drop_rate = 1/4\<rparr>,
            \<lparr>vb_attention_type = ''class'', vb_embed_dim = 384, vb_num_head = 12,
              vb_mlp_ratio = 3, vb_drop_rate = 0\<rparr>]
   \<and> (1/4 :: real) = 1/2 * real 1 / real (sum_list [2]) \<and> (1/4 :: real) < 1/2"
proof -
  let ?bs = "[\<lparr>cb_stack_id = 0, cb_block_id = 0, cb_is_conv_block = True, cb_out_channel = 64,
              cb_strides = 2, cb_conv_short_cut = True, cb_drop_rate = 0\<rparr>,
            \<lparr>cb_stack_id = 0, cb_block_id = 1, cb_is_conv_block = True, cb_out_channel = 64,
              cb_strides = 1, cb_conv_short_cut = False, cb_drop_rate = 1/4\<rparr>]"
  let ?vs = "[\<lparr>vb_attention_type = ''outlook'', vb_embed_dim = 192, vb_num_head = 6,
              vb_mlp_ratio = 3, vb_drop_rate = 0\<rparr>,
            \<lparr>vb_attention_type = ''mhsa'', vb_embed_dim = 384, vb_num_head = 12,
              vb_mlp_ratio = 3, vb_drop_rate = 1/4\<rparr>,
            \<lparr>vb_attention_type = ''class'', vb_embed_dim = 384, vb_num_head = 12,
              vb_mlp_ratio = 3, vb_drop_rate = 0\<rparr>]"
  have c: "CoAtNet_blocks [2] [64] [''conv''] (1/2) = Inr ?bs"
    by (simp add: CoAtNet_blocks_def py_truediv_def upt_rec)
  have v: "VOLO_blocks [1, 1] [192, 384] [6, 12] [3, 3] 1000 (1/2) 1 ''outlook'' = Inr ?vs"
    by (simp add: VOLO_blocks_def py_nth_def py_last_def py_truediv_def)
  from drop_rate_schedule [of "[2]" "[64]" "[''conv'']" "1/2" ?bs]
  have "\<forall>i<length ?bs. cb_drop_rate (?bs ! i) = 1/2 * real i / real (sum_list [2])
       \<and> (0 \<le> (1/2::real) \<longrightarrow> (0 < (1/2::real) \<longrightarrow> cb_drop_rate (?bs ! i) < 1/2))"
    using c by blast
  then have "cb_drop_rate (?bs ! 1) = 1/2 * real 1 / real (sum_list [2])
       \<and> cb_drop_rate (?bs ! 1) < 1/2"
    by simp
  then show ?thesis using c v by simp
qed


section \<open>Tensors\<close>

text \<open>
  A tensor is its shape and its elements in row-major order, as the framework stores it:
  \<^verbatim>\<open>tf.reshape\<close> keeps the element list and changes the shape. \<open>tget\<close> reads the element
  at a multi-index; \<open>tabulate\<close> builds a tensor from a function of the multi-index.
\<close>

record 'a tensor =
  shape :: "nat list"
  flat :: "'a list"

definition wf :: "'a tensor \<Rightarrow> bool" where
  "wf t \<longleftrightarrow> length (flat t) = prod_list (shape t)"

fun ravel :: "nat list \<Rightarrow> nat list \<Rightarrow> nat" where
  "ravel (n # s) (i # idx) = i * prod_list s + ravel s idx"
| "ravel s idx = 0"

fun valid_index :: "nat list \<Rightarrow> nat list \<Rightarrow> bool" where
  "valid_index [] [] = True"
| "valid_index (n # s) (i # idx) = (i < n \<and> valid_index s idx)"
| "valid_index s idx = False"

fun indices :: "nat list \<Rightarrow> nat list list" where
  "indices [] = [[]]"
| "indices (n # s) = concat (map (\<lambda>i. map ((#) i) (indices s)) [0..<n])"

definition tabulate :: "nat list \<Rightarrow> (nat list \<Rightarrow> 'a) \<Rightarrow> 'a tensor" where
  "tabulate s f = \<lparr>shape = s, flat = map f (indices s)\<rparr>"

definition tget :: "'a tensor \<Rightarrow> nat list \<Rightarrow> 'a" where
  "tget t idx = flat t ! ravel (shape t) idx"

lemma length_concat_const:
  "(\<And>x. x \<in> set xs \<Longrightarrow> length (f x) = k) \<Longrightarrow> length (concat (map f xs)) = length xs * k"
  by (induction xs) simp_all

lemma length_indices [simp]: "length (indices s) = prod_list s"
  by (induction s) (simp_all add: length_concat_const)

lemma nth_concat_const:
  assumes "\<And>x. x \<in> set xs \<Longrightarrow> length (f x) = k" "i < length xs" "j < k"
  shows "concat (map f xs) ! (i * k + j) = f (xs ! i) ! j"
  using assms
proof (induction xs arbitrary: i)
  case Nil
  then show ?case by simp
next
  case (Cons x xs)
  show ?case
  proof (cases i)
    case 0
    then show ?thesis using Cons.prems by (simp add: nth_append)
  next
    case (Suc i')
    then have "concat (map f xs) ! (i' * k + j) = f (xs ! i') ! j"
      using Cons by simp
    then show ?thesis using Suc Cons.prems(1) [of x] by (simp add: nth_append)
  qed
qed

lemma ravel_less: "valid_index s idx \<Longrightarrow> ravel s idx < prod_list s"
proof (induction s idx rule: valid_index.induct)
  case (2 n s i idx)
  then have "i < n" "ravel s idx < prod_list s" by simp_all
  then have "i * prod_list s + ravel s idx < (i + 1) * prod_list s" by simp
  also have "\<dots> \<le> n * prod_list s" using \<open>i < n\<close> by (intro mult_le_mono1) simp
  finally show ?case by simp
qed simp_all

lemma indices_nth_ravel: "valid_index s idx \<Longrightarrow> indices s ! ravel s idx = idx"
proof (induction s idx rule: valid_index.induct)
  case (2 n s i idx)
  then have i: "i < n" and v: "valid_index s idx" by simp_all
  have "concat (map (\<lambda>i. map ((#) i) (indices s)) [0..<n]) ! (i * prod_list s + ravel s idx)
      = map ((#) ([0..<n] ! i)) (indices s) ! ravel s idx"
    using i ravel_less [OF v] by (intro nth_concat_const) simp_all
  then show ?case using i v 2 ravel_less [OF v] by simp
qed simp_all

lemma valid_index_length: "valid_index s idx \<Longrightarrow> length idx = length s"
  by (induction s idx rule: valid_index.induct) simp_all

lemma valid_index_nth: "valid_index s idx \<Longrightarrow> k < length s \<Longrightarrow> idx ! k < s ! k"
proof (induction s idx arbitrary: k rule: valid_index.induct)
  case (2 n s i idx)
  then show ?case by (cases k) simp_all
qed simp_all

lemma valid_indexI:
  "length idx = length s \<Longrightarrow> (\<And>k. k < length s \<Longrightarrow> idx ! k < s ! k) \<Longrightarrow> valid_index s idx"
proof (induction s idx rule: valid_index.induct)
  case (2 n s i idx)
  have "i < n" using "2.prems"(2) [of 0] by simp
  moreover have "valid_index s idx"
  proof (rule "2.IH")
    show "length idx = length s" using "2.prems"(1) by simp
    fix k assume "k < length s"
    then show "idx ! k < s ! k" using "2.prems"(2) [of "Suc k"] by simp
  qed
  ultimately show ?case by simp
qed simp_all

lemma indices_nth_valid: "k < prod_list s \<Longrightarrow> valid_index s (indices s ! k) \<and> ravel s (indices s ! k) = k"
proof (induction s arbitrary: k)
  case Nil
  then show ?case by simp
next
  case (Cons n s)
  let ?P = "prod_list s"
  have P: "0 < ?P" using Cons.prems by (cases "?P = 0") simp_all
  have d: "k div ?P < n" using Cons.prems P by (simp add: less_mult_imp_div_less mult.commute)
  have m: "k mod ?P < ?P" using P by simp
  have "concat (map (\<lambda>i. map ((#) i) (indices s)) [0..<n]) ! (k div ?P * ?P + k mod ?P)
      = map ((#) ([0..<n] ! (k div ?P))) (indices s) ! (k mod ?P)"
    using d m by (intro nth_concat_const) simp_all
  then have "indices (n # s) ! k = (k div ?P) # (indices s ! (k mod ?P))"
    using d m by simp
  then show ?case using Cons.IH [OF m] d by simp
qed

lemma set_indices: "set (indices s) = {idx. valid_index s idx}"
proof (rule set_eqI)
  fix idx
  show "idx \<in> set (indices s) \<longleftrightarrow> idx \<in> {idx. valid_index s idx}"
  proof
    assume "idx \<in> set (indices s)"
    then obtain k where "k < prod_list s" "idx = indices s ! k"
      by (auto simp: in_set_conv_nth)
    then show "idx \<in> {idx. valid_index s idx}" using indices_nth_valid by simp
  next
    assume "idx \<in> {idx. valid_index s idx}"
    then have v: "valid_index s idx" by simp
    from ravel_less [OF v] indices_nth_ravel [OF v]
    show "idx \<in> set (indices s)" by (metis length_indices nth_mem)
  qed
qed

lemma tget_tabulate [simp]: "valid_index s idx \<Longrightarrow> tget (tabulate s f) idx = f idx"
  using ravel_less [of s idx] by (simp add: tget_def tabulate_def indices_nth_ravel)

lemma shape_tabulate [simp]: "shape (tabulate s f) = s"
  by (simp add: tabulate_def)

lemma wf_tabulate [simp]: "wf (tabulate s f)"
  by (simp add: wf_def tabulate_def)

lemma tabulate_cong:
  "(\<And>idx. valid_index s idx \<Longrightarrow> f idx = g idx) \<Longrightarrow> tabulate s f = tabulate s g"
  by (simp add: tabulate_def set_indices)

lemma tabulate_tget: "wf t \<Longrightarrow> tabulate (shape t) (tget t) = t"
proof -
  assume w: "wf t"
  have "map (tget t) (indices (shape t)) = flat t"
  proof (rule nth_equalityI)
    show "length (map (tget t) (indices (shape t))) = length (flat t)"
      using w by (simp add: wf_def)
    fix k assume "k < length (map (tget t) (indices (shape t)))"
    then have "k < prod_list (shape t)" by simp
    then show "map (tget t) (indices (shape t)) ! k = flat t ! k"
      using indices_nth_valid [of k "shape t"] by (simp add: tget_def)
  qed
  then show ?thesis by (simp add: tabulate_def)
qed

lemma tensor_eqI:
  assumes "wf a" "wf b" "shape a = shape b"
    and "\<And>idx. valid_index (shape a) idx \<Longrightarrow> tget a idx = tget b idx"
  shows "a = b"
proof -
  have "a = tabulate (shape a) (tget a)"
    by (rule tabulate_tget [OF assms(1), symmetric])
  also have "\<dots> = tabulate (shape a) (tget b)"
    using assms(4) by (rule tabulate_cong)
  also have "\<dots> = tabulate (shape b) (tget b)"
    by (simp only: assms(3))
  also have "\<dots> = b"
    by (rule tabulate_tget [OF assms(2)])
  finally show ?thesis .
qed

text \<open>A reshape keeps the row-major element list.\<close>

lemma reshape_tabulate:
  assumes "prod_list s = prod_list s'"
    and "\<And>idx. valid_index s' idx \<Longrightarrow> valid_index s (g idx) \<and> ravel s (g idx) = ravel s' idx"
  shows "\<lparr>shape = s', flat = flat (tabulate s f)\<rparr> = tabulate s' (\<lambda>idx. f (g idx))"
proof -
  have "map f (indices s) = map (\<lambda>idx. f (g idx)) (indices s')"
  proof (rule nth_equalityI)
    show "length (map f (indices s)) = length (map (\<lambda>idx. f (g idx)) (indices s'))"
      using assms(1) by simp
    fix k assume "k < length (map f (indices s))"
    then have k: "k < prod_list s'" using assms(1) by simp
    from indices_nth_valid [OF k] have v: "valid_index s' (indices s' ! k)"
      and r: "ravel s' (indices s' ! k) = k" by simp_all
    from assms(2) [OF v] r have vg: "valid_index s (g (indices s' ! k))"
      and rg: "ravel s (g (indices s' ! k)) = k"
      by simp_all
    have "indices s ! k = g (indices s' ! k)"
      using indices_nth_ravel [OF vg] by (simp only: rg)
    then show "map f (indices s) ! k = map (\<lambda>idx. f (g idx)) (indices s') ! k"
      using k assms(1) by simp
  qed
  then show ?thesis by (simp add: tabulate_def)
qed

section \<open>Tensor operations of the framework\<close>

text \<open>
  The operations the repository calls: Python slicing of a tensor (\<^verbatim>\<open>t[:, a:b, ::2]\<close>),
  \<^verbatim>\<open>tf.pad\<close> (zero padding), \<^verbatim>\<open>tf.transpose\<close>, \<^verbatim>\<open>tf.concat\<close> of two tensors and
  \<^verbatim>\<open>tf.reshape\<close> (one dimension may be \<open>-1\<close>). A slice bound is clamped as Python does;
  concatenating tensors whose other dimensions differ, and reshaping to a shape of another
  size, raise.
\<close>

text \<open>\<^verbatim>\<open>str.upper\<close> on ASCII strings.\<close>

definition upper_char :: "char \<Rightarrow> char" where
  "upper_char c =
     (if (97::nat) \<le> of_char c \<and> of_char c \<le> (122::nat)
      then (case c of Char b0 b1 b2 b3 b4 b5 b6 b7 \<Rightarrow> Char b0 b1 b2 b3 b4 False b6 b7)
      else c)"

definition py_upper :: "string \<Rightarrow> string" where "py_upper s = map upper_char s"

datatype slice = Slice "int option" "int option" nat

definition slice_bound :: "nat \<Rightarrow> int \<Rightarrow> nat" where
  "slice_bound n v = (if v < 0 then nat (max (v + int n) 0) else min (nat v) n)"

fun slice_indices :: "nat \<Rightarrow> slice \<Rightarrow> nat list" where
  "slice_indices n (Slice start stop step) =
     (let lo = (case start of None \<Rightarrow> 0 | Some v \<Rightarrow> slice_bound n v);
          hi = (case stop of None \<Rightarrow> n | Some v \<Rightarrow> slice_bound n v)
      in map (\<lambda>k. lo + k * step) [0..<(hi - lo + step - 1) div step])"

definition tf_slice :: "'a tensor \<Rightarrow> slice list \<Rightarrow> 'a tensor" where
  "tf_slice t specs =
     (let sels = map2 slice_indices (shape t)
                   (specs @ replicate (length (shape t) - length specs) (Slice None None 1))
      in tabulate (map length sels) (\<lambda>idx. tget t (map2 (\<lambda>sel i. sel ! i) sels idx)))"

definition tf_pad :: "'a::zero tensor \<Rightarrow> (nat \<times> nat) list \<Rightarrow> 'a tensor" where
  "tf_pad t paddings =
     tabulate (map2 (\<lambda>n (b, a). b + n + a) (shape t) paddings)
       (\<lambda>idx. if list_all2 (\<lambda>i (n, (b, a)). b \<le> i \<and> i < b + n) idx (zip (shape t) paddings)
               then tget t (map2 (\<lambda>i (b, a). i - b) idx paddings) else 0)"

fun index_of :: "nat list \<Rightarrow> nat \<Rightarrow> nat" where
  "index_of [] a = 0"
| "index_of (p # ps) a = (if p = a then 0 else Suc (index_of ps a))"

definition tf_transpose :: "'a tensor \<Rightarrow> nat list \<Rightarrow> 'a tensor" where
  "tf_transpose t perm =
     tabulate (map (\<lambda>p. shape t ! p) perm)
       (\<lambda>idx. tget t (map (\<lambda>a. idx ! index_of perm a) [0..<length perm]))"

definition tf_concat :: "'a tensor \<Rightarrow> 'a tensor \<Rightarrow> nat \<Rightarrow> error + 'a tensor" where
  "tf_concat a b axis =
     (if length (shape a) = length (shape b) \<and> axis < length (shape a)
         \<and> (shape a)[axis := 0] = (shape b)[axis := 0]
      then Inr (tabulate ((shape a)[axis := shape a ! axis + shape b ! axis])
                  (\<lambda>idx. if idx ! axis < shape a ! axis then tget a idx
                          else tget b (idx[axis := idx ! axis - shape a ! axis])))
      else Inl ValueError)"

definition tf_reshape :: "'a tensor \<Rightarrow> int list \<Rightarrow> error + 'a tensor" where
  "tf_reshape t target =
     (let known = prod_list (map nat (filter (\<lambda>d. d \<noteq> - 1) target)); n = length (flat t) in
      if length (filter (\<lambda>d. d = - 1) target) > 1 \<or> (\<exists>d \<in> set target. d < - 1)
      then Inl ValueError
      else if - 1 \<in> set target then
        (if known = 0 \<or> n mod known \<noteq> 0 then Inl ValueError
         else Inr \<lparr>shape = map (\<lambda>d. if d = - 1 then n div known else nat d) target, flat = flat t\<rparr>)
      else if known = n then Inr \<lparr>shape = map nat target, flat = flat t\<rparr>
      else Inl ValueError)"

section \<open>\<^verbatim>\<open>common_layers.tpu_extract_patches_overlap_1\<close>\<close>

text \<open>
  \<^verbatim>\<open>
  def tpu_extract_patches_overlap_1(inputs, sizes=3, strides=2, rates=1, padding="SAME", name=None):
      kernel_size = sizes[1] if isinstance(sizes, (list, tuple)) else sizes
      strides = strides[1] if isinstance(strides, (list, tuple)) else strides
      if padding.upper() == "SAME":
          pad = kernel_size // 2
          pad_inputs = tf.pad(inputs, [[0, 0], [pad, pad], [pad, pad], [0, 0]])
      else:
          pad_inputs = inputs
      _, ww, hh, cc = pad_inputs.shape
      num_patches = int(tf.math.ceil(ww / strides) - 1)
      valid_ww = num_patches * strides
      overlap_s = kernel_size - strides
      temp_shape = (-1, num_patches, strides, num_patches, strides, cc)
      center = tf.reshape(pad_inputs[:, :valid_ww, :valid_ww, :], temp_shape)
      ww_overlap = tf.reshape(pad_inputs[:, :valid_ww, overlap_s:valid_ww + overlap_s, :], temp_shape)
      hh_overlap = tf.reshape(pad_inputs[:, overlap_s:valid_ww + overlap_s, :valid_ww, :], temp_shape)
      corner_overlap = tf.reshape(pad_inputs[:, overlap_s:valid_ww + overlap_s, overlap_s:valid_ww + overlap_s, :], temp_shape)
      aa = tf.concat([center, ww_overlap[:, :, :, :, -overlap_s:, :]], axis=4)
      bb = tf.concat([hh_overlap[:, :, -overlap_s:, :, :, :], corner_overlap[:, :, -overlap_s:, :, -overlap_s:, :]], axis=4)
      out = tf.concat([aa, bb], axis=2)
      out = tf.transpose(out, [0, 1, 3, 2, 4, 5])
      return tf.reshape(out, [-1, num_patches, num_patches, kernel_size * kernel_size * cc])
  \<close>
  The arguments \<open>rates\<close> and \<open>name\<close> are not used by the body.
\<close>

datatype int_or_list = PInt nat | PList "nat list"

definition tpu_extract_patches_overlap_1 ::
  "'a::zero tensor \<Rightarrow> int_or_list \<Rightarrow> int_or_list \<Rightarrow> string \<Rightarrow> error + 'a tensor" where
  "tpu_extract_patches_overlap_1 inputs sizes strides padding =
     ebind (case sizes of PList l \<Rightarrow> py_nth l 1 | PInt k \<Rightarrow> Inr k) (\<lambda>kernel_size.
     ebind (case strides of PList l \<Rightarrow> py_nth l 1 | PInt k \<Rightarrow> Inr k) (\<lambda>strides.
     (let pad_inputs =
            (if py_upper padding = ''SAME''
             then (let pad = kernel_size div 2
                   in tf_pad inputs [(0, 0), (pad, pad), (pad, pad), (0, 0)])
             else inputs)
      in case shape pad_inputs of
           [_, ww, hh, cc] \<Rightarrow>
             if strides = 0 then Inl ZeroDivisionError
             else
              (let num_patches = \<lceil>real ww / real strides\<rceil> - 1;
                   valid_ww = num_patches * int strides;
                   overlap_s = int kernel_size - int strides;
                   temp_shape = [- 1, num_patches, int strides, num_patches, int strides, int cc];
                   all = Slice None None 1
               in
               ebind (tf_reshape (tf_slice pad_inputs
                        [all, Slice None (Some valid_ww) 1, Slice None (Some valid_ww) 1, all])
                        temp_shape) (\<lambda>center.
               ebind (tf_reshape (tf_slice pad_inputs
                        [all, Slice None (Some valid_ww) 1,
                         Slice (Some overlap_s) (Some (valid_ww + overlap_s)) 1, all])
                        temp_shape) (\<lambda>ww_overlap.
               ebind (tf_reshape (tf_slice pad_inputs
                        [all, Slice (Some overlap_s) (Some (valid_ww + overlap_s)) 1,
                         Slice None (Some valid_ww) 1, all])
                        temp_shape) (\<lambda>hh_overlap.
               ebind (tf_reshape (tf_slice pad_inputs
                        [all, Slice (Some overlap_s) (Some (valid_ww + overlap_s)) 1,
                         Slice (Some overlap_s) (Some (valid_ww + overlap_s)) 1, all])
                        temp_shape) (\<lambda>corner_overlap.
               ebind (tf_concat center
                        (tf_slice ww_overlap [all, all, all, all, Slice (Some (- overlap_s)) None 1, all])
                        4) (\<lambda>aa.
               ebind (tf_concat
                        (tf_slice hh_overlap [all, all, Slice (Some (- overlap_s)) None 1, all, all, all])
                        (tf_slice corner_overlap
                           [all, all, Slice (Some (- overlap_s)) None 1, all,
                            Slice (Some (- overlap_s)) None 1, all])
                        4) (\<lambda>bb.
               ebind (tf_concat aa bb 2) (\<lambda>out.
               (let out = tf_transpose out [0, 1, 3, 2, 4, 5]
                in tf_reshape out
                     [- 1, num_patches, num_patches,
                      int (kernel_size * kernel_size * cc)])))))))))
         | _ \<Rightarrow> Inl ValueError)))"

lemma valid_index4E:
  assumes "valid_index [a, b, c, d] idx"
  obtains i j k l where "idx = [i, j, k, l]" "i < a" "j < b" "k < c" "l < d"
proof -
  from valid_index_length [OF assms] have "length idx = 4" by simp
  then obtain i j k l where "idx = [i, j, k, l]"
    by (auto simp: length_Suc_conv eval_nat_numeral)
  with assms that show ?thesis by simp
qed

lemma valid_index6E:
  assumes "valid_index [a, b, c, d, e, f] idx"
  obtains i j k l m n where "idx = [i, j, k, l, m, n]" "i < a" "j < b" "k < c" "l < d" "m < e" "n < f"
proof -
  from valid_index_length [OF assms] have "length idx = 6" by simp
  then obtain i j k l m n where "idx = [i, j, k, l, m, n]"
    by (auto simp: length_Suc_conv eval_nat_numeral)
  with assms that show ?thesis by simp
qed

lemma map_add_upt: "map (\<lambda>k. a + k) [0..<n] = [a..<a + n]"
  by (induction n) simp_all

lemma slice_indices_step1:
  "slice_indices n (Slice start stop (Suc 0)) =
     [(case start of None \<Rightarrow> 0 | Some v \<Rightarrow> slice_bound n v)
        ..<(case stop of None \<Rightarrow> n | Some v \<Rightarrow> slice_bound n v)]"
proof -
  have "map (\<lambda>k. lo + k) [0..<hi - lo] = [lo..<hi]" for lo hi :: nat
    using map_add_upt [of lo "hi - lo"] by (cases "lo \<le> hi") simp_all
  then show ?thesis by (simp add: Let_def)
qed

lemma slice_bound_nat: "k \<le> n \<Longrightarrow> slice_bound n (int k) = k"
  by (simp add: slice_bound_def)

lemma slice_bound_last: "0 < n \<Longrightarrow> slice_bound n (- 1) = n - 1"
  by (simp add: slice_bound_def nat_diff_distrib')

lemma tf_slice4:
  assumes "shape t = [n0, n1, n2, n3]"
    and "map2 slice_indices [n0, n1, n2, n3] specs = [[a0..<b0], [a1..<b1], [a2..<b2], [a3..<b3]]"
    and "length specs = 4"
  shows "tf_slice t specs = tabulate [b0 - a0, b1 - a1, b2 - a2, b3 - a3]
           (\<lambda>idx. tget t [a0 + idx ! 0, a1 + idx ! 1, a2 + idx ! 2, a3 + idx ! 3])"
proof -
  have "tf_slice t specs = tabulate [b0 - a0, b1 - a1, b2 - a2, b3 - a3]
      (\<lambda>idx. tget t (map2 (\<lambda>sel i. sel ! i) [[a0..<b0], [a1..<b1], [a2..<b2], [a3..<b3]] idx))"
    using assms by (simp add: tf_slice_def)
  also have "\<dots> = tabulate [b0 - a0, b1 - a1, b2 - a2, b3 - a3]
           (\<lambda>idx. tget t [a0 + idx ! 0, a1 + idx ! 1, a2 + idx ! 2, a3 + idx ! 3])"
  proof (rule tabulate_cong)
    fix idx assume "valid_index [b0 - a0, b1 - a1, b2 - a2, b3 - a3] idx"
    then show "tget t (map2 (\<lambda>sel i. sel ! i) [[a0..<b0], [a1..<b1], [a2..<b2], [a3..<b3]] idx)
        = tget t [a0 + idx ! 0, a1 + idx ! 1, a2 + idx ! 2, a3 + idx ! 3]"
      by (elim valid_index4E) simp
  qed
  finally show ?thesis .
qed

lemma tf_slice6:
  assumes "shape t = [n0, n1, n2, n3, n4, n5]"
    and "map2 slice_indices [n0, n1, n2, n3, n4, n5] specs
           = [[a0..<b0], [a1..<b1], [a2..<b2], [a3..<b3], [a4..<b4], [a5..<b5]]"
    and "length specs = 6"
  shows "tf_slice t specs = tabulate [b0 - a0, b1 - a1, b2 - a2, b3 - a3, b4 - a4, b5 - a5]
           (\<lambda>idx. tget t [a0 + idx ! 0, a1 + idx ! 1, a2 + idx ! 2, a3 + idx ! 3,
                            a4 + idx ! 4, a5 + idx ! 5])"
proof -
  have "tf_slice t specs = tabulate [b0 - a0, b1 - a1, b2 - a2, b3 - a3, b4 - a4, b5 - a5]
      (\<lambda>idx. tget t (map2 (\<lambda>sel i. sel ! i)
           [[a0..<b0], [a1..<b1], [a2..<b2], [a3..<b3], [a4..<b4], [a5..<b5]] idx))"
    using assms by (simp add: tf_slice_def)
  also have "\<dots> = tabulate [b0 - a0, b1 - a1, b2 - a2, b3 - a3, b4 - a4, b5 - a5]
           (\<lambda>idx. tget t [a0 + idx ! 0, a1 + idx ! 1, a2 + idx ! 2, a3 + idx ! 3,
                            a4 + idx ! 4, a5 + idx ! 5])"
  proof (rule tabulate_cong)
    fix idx assume "valid_index [b0 - a0, b1 - a1, b2 - a2, b3 - a3, b4 - a4, b5 - a5] idx"
    then show "tget t (map2 (\<lambda>sel i. sel ! i)
           [[a0..<b0], [a1..<b1], [a2..<b2], [a3..<b3], [a4..<b4], [a5..<b5]] idx)
        = tget t [a0 + idx ! 0, a1 + idx ! 1, a2 + idx ! 2, a3 + idx ! 3,
                            a4 + idx ! 4, a5 + idx ! 5]"
      by (elim valid_index6E) simp
  qed
  finally show ?thesis .
qed

lemma tf_concat_tabulate:
  assumes "length s1 = length s2" "axis < length s1" "s1[axis := 0] = s2[axis := 0]"
  shows "tf_concat (tabulate s1 f1) (tabulate s2 f2) axis =
     Inr (tabulate (s1[axis := s1 ! axis + s2 ! axis])
            (\<lambda>idx. if idx ! axis < s1 ! axis then f1 idx
                    else f2 (idx[axis := idx ! axis - s1 ! axis])))"
proof -
  have other: "s1 ! k = s2 ! k" if "k \<noteq> axis" for k
  proof -
    have "s1[axis := 0] ! k = s2[axis := 0] ! k" by (simp only: assms(3))
    then show ?thesis using that by simp
  qed
  have "tabulate (s1[axis := s1 ! axis + s2 ! axis])
          (\<lambda>idx. if idx ! axis < s1 ! axis then tget (tabulate s1 f1) idx
                  else tget (tabulate s2 f2) (idx[axis := idx ! axis - s1 ! axis]))
      = tabulate (s1[axis := s1 ! axis + s2 ! axis])
          (\<lambda>idx. if idx ! axis < s1 ! axis then f1 idx
                  else f2 (idx[axis := idx ! axis - s1 ! axis]))"
  proof (rule tabulate_cong)
    fix idx assume v: "valid_index (s1[axis := s1 ! axis + s2 ! axis]) idx"
    have len: "length idx = length s1" using valid_index_length [OF v] by simp
    have nth: "idx ! k < (s1[axis := s1 ! axis + s2 ! axis]) ! k" if "k < length s1" for k
      using valid_index_nth [OF v, of k] that by simp
    show "(if idx ! axis < s1 ! axis then tget (tabulate s1 f1) idx
           else tget (tabulate s2 f2) (idx[axis := idx ! axis - s1 ! axis]))
        = (if idx ! axis < s1 ! axis then f1 idx else f2 (idx[axis := idx ! axis - s1 ! axis]))"
    proof (cases "idx ! axis < s1 ! axis")
      case True
      have "valid_index s1 idx"
      proof (rule valid_indexI [OF len])
        fix k assume k: "k < length s1"
        show "idx ! k < s1 ! k"
          using nth [OF k] True k by (cases "k = axis") simp_all
      qed
      then show ?thesis using True by simp
    next
      case False
      have "valid_index s2 (idx[axis := idx ! axis - s1 ! axis])"
      proof (rule valid_indexI)
        show "length (idx[axis := idx ! axis - s1 ! axis]) = length s2"
          using len assms(1) by simp
        fix k assume k: "k < length s2"
        then have k1: "k < length s1" using assms(1) by simp
        show "idx[axis := idx ! axis - s1 ! axis] ! k < s2 ! k"
        proof (cases "k = axis")
          case True
          then show ?thesis using nth [OF k1] False k1 len assms(2) by simp
        next
          case False
          then show ?thesis using nth [OF k1] other [OF False] k1 len by simp
        qed
      qed
      then show ?thesis using False by simp
    qed
  qed
  then show ?thesis using assms unfolding tf_concat_def shape_tabulate by simp
qed

lemma tf_transpose_0132:
  "tf_transpose (tabulate [n0, n1, n2, n3, n4, n5] f) [0, 1, 3, 2, 4, 5] =
     tabulate [n0, n1, n3, n2, n4, n5]
       (\<lambda>idx. f [idx ! 0, idx ! 1, idx ! 3, idx ! 2, idx ! 4, idx ! 5])"
proof -
  have u: "[0..<6] = [0, 1, 2, 3, 4, 5]" by (simp add: upt_rec)
  have sh: "map (\<lambda>p. [n0, n1, n2, n3, n4, n5] ! p) [0, 1, 3, 2, 4, 5] = [n0, n1, n3, n2, n4, n5]"
    by simp
  show ?thesis
    unfolding tf_transpose_def shape_tabulate sh
  proof (rule tabulate_cong)
    fix idx assume "valid_index [n0, n1, n3, n2, n4, n5] idx"
    then show "tget (tabulate [n0, n1, n2, n3, n4, n5] f)
          (map (\<lambda>a. idx ! index_of [0, 1, 3, 2, 4, 5] a) [0..<length [0, 1, 3, 2, 4, 5 :: nat]])
        = f [idx ! 0, idx ! 1, idx ! 3, idx ! 2, idx ! 4, idx ! 5]"
      by (elim valid_index6E) (simp add: u)
  qed
qed

lemma tf_reshape_infer_batch:
  assumes "\<forall>d \<in> set dims. 0 \<le> d" and "0 < prod_list (map nat dims)"
    and "length (flat t) = B * prod_list (map nat dims)"
  shows "tf_reshape t (- 1 # dims) = Inr \<lparr>shape = B # map nat dims, flat = flat t\<rparr>"
proof -
  have f1: "filter (\<lambda>d. d \<noteq> - 1) dims = dims"
    using assms(1) by (intro filter_True) auto
  have f2: "filter (\<lambda>d. d = - 1) dims = []"
    using assms(1) by (intro filter_False) auto
  have f3: "\<not> (\<exists>d \<in> set dims. d < - 1)" using assms(1) by auto
  have f4: "map (\<lambda>d. if d = - 1 then B else nat d) dims = map nat dims"
    using assms(1) by (intro map_cong) auto
  have f5: "- 1 \<notin> set dims" using assms(1) by auto
  show ?thesis
    using assms(2,3) f3 f5 by (simp add: tf_reshape_def f1 f2 f4 Let_def)
qed

lemma tf_reshape_split:
  assumes "0 < P" "0 < C"
  shows "tf_reshape (tabulate [B, 2 * P, 2 * P, C] f) [- 1, int P, 2, int P, 2, int C] =
     Inr (tabulate [B, P, 2, P, 2, C]
            (\<lambda>idx. f [idx ! 0, 2 * idx ! 1 + idx ! 2, 2 * idx ! 3 + idx ! 4, idx ! 5]))"
proof -
  have "tf_reshape (tabulate [B, 2 * P, 2 * P, C] f) (- 1 # [int P, 2, int P, 2, int C]) =
      Inr \<lparr>shape = B # map nat [int P, 2, int P, 2, int C],
           flat = flat (tabulate [B, 2 * P, 2 * P, C] f)\<rparr>"
    using assms by (intro tf_reshape_infer_batch) (simp_all add: tabulate_def del: indices.simps)
  moreover have "\<lparr>shape = [B, P, 2, P, 2, C], flat = flat (tabulate [B, 2 * P, 2 * P, C] f)\<rparr> =
      tabulate [B, P, 2, P, 2, C]
        (\<lambda>idx. f [idx ! 0, 2 * idx ! 1 + idx ! 2, 2 * idx ! 3 + idx ! 4, idx ! 5])"
  proof (rule reshape_tabulate)
    show "prod_list [B, 2 * P, 2 * P, C] = prod_list [B, P, 2, P, 2, C]" by simp
    fix idx assume "valid_index [B, P, 2, P, 2, C] idx"
    then show "valid_index [B, 2 * P, 2 * P, C]
          [idx ! 0, 2 * idx ! 1 + idx ! 2, 2 * idx ! 3 + idx ! 4, idx ! 5]
        \<and> ravel [B, 2 * P, 2 * P, C]
          [idx ! 0, 2 * idx ! 1 + idx ! 2, 2 * idx ! 3 + idx ! 4, idx ! 5]
          = ravel [B, P, 2, P, 2, C] idx"
      by (elim valid_index6E) (simp add: algebra_simps)
  qed
  ultimately show ?thesis by simp
qed

lemma tf_reshape_merge:
  assumes "0 < P" "0 < C"
  shows "tf_reshape (tabulate [B, P, P, 3, 3, C] f) [- 1, int P, int P, int (3 * 3 * C)] =
     Inr (tabulate [B, P, P, 9 * C]
            (\<lambda>idx. f [idx ! 0, idx ! 1, idx ! 2,
                       idx ! 3 div (3 * C), idx ! 3 div C mod 3, idx ! 3 mod C]))"
proof -
  have n9: "nat (9 * int C) = 9 * C" by (simp add: nat_mult_distrib)
  have "tf_reshape (tabulate [B, P, P, 3, 3, C] f) (- 1 # [int P, int P, int (3 * 3 * C)]) =
      Inr \<lparr>shape = B # map nat [int P, int P, int (3 * 3 * C)],
           flat = flat (tabulate [B, P, P, 3, 3, C] f)\<rparr>"
    using assms by (intro tf_reshape_infer_batch) (simp_all add: tabulate_def n9 del: indices.simps)
  moreover have "\<lparr>shape = [B, P, P, 9 * C], flat = flat (tabulate [B, P, P, 3, 3, C] f)\<rparr> =
      tabulate [B, P, P, 9 * C]
        (\<lambda>idx. f [idx ! 0, idx ! 1, idx ! 2,
                       idx ! 3 div (3 * C), idx ! 3 div C mod 3, idx ! 3 mod C])"
  proof (rule reshape_tabulate)
    show "prod_list [B, P, P, 3, 3, C] = prod_list [B, P, P, 9 * C]" by simp
    fix idx assume "valid_index [B, P, P, 9 * C] idx"
    then obtain b i j m where idx: "idx = [b, i, j, m]" and
      b: "b < B" "i < P" "j < P" "m < 9 * C"
      by (elim valid_index4E)
    have d1: "m div (3 * C) < 3"
      using b(4) assms(2) by (simp add: less_mult_imp_div_less)
    have c: "m mod C < C" using assms(2) by simp
    have dd: "m div (3 * C) = m div C div 3"
      by (simp add: div_mult2_eq mult.commute)
    have m: "m div (3 * C) * (3 * C) + (m div C mod 3) * C + m mod C = m"
    proof -
      have e1: "m div C div 3 * 3 + m div C mod 3 = m div C" by simp
      have e2: "m div C * C + m mod C = m" by simp
      have "m div C div 3 * (3 * C) + (m div C mod 3) * C + m mod C
          = (m div C div 3 * 3 + m div C mod 3) * C + m mod C"
        by (simp only: distrib_right mult.assoc)
      also have "\<dots> = m" unfolding e1 by (rule e2)
      finally show ?thesis unfolding dd .
    qed
    have "ravel [B, P, P, 3, 3, C] [b, i, j, m div (3 * C), m div C mod 3, m mod C]
        = b * (P * (P * (9 * C))) + i * (P * (9 * C)) + j * (9 * C)
          + (m div (3 * C) * (3 * C) + (m div C mod 3) * C + m mod C)"
      by (simp add: algebra_simps)
    also have "\<dots> = ravel [B, P, P, 9 * C] [b, i, j, m]"
      unfolding m by (simp add: algebra_simps)
    finally show "valid_index [B, P, P, 3, 3, C]
          [idx ! 0, idx ! 1, idx ! 2, idx ! 3 div (3 * C), idx ! 3 div C mod 3, idx ! 3 mod C]
        \<and> ravel [B, P, P, 3, 3, C]
          [idx ! 0, idx ! 1, idx ! 2, idx ! 3 div (3 * C), idx ! 3 div C mod 3, idx ! 3 mod C]
          = ravel [B, P, P, 9 * C] idx"
      using idx b d1 c by simp
  qed
  ultimately show ?thesis by (simp add: n9)
qed

text \<open>
  The framework routine \<^verbatim>\<open>tf.image.extract_patches(images, sizes, strides, rates, padding)\<close>
  is not code of the repository. This reference model follows its documentation, for
  \<open>rates = [1, 1, 1, 1]\<close>: the output has \<open>ceil((rows - ksize_rows + 1) / stride_rows)\<close>
  patch rows for \<open>VALID\<close> and \<open>ceil(rows / stride_rows)\<close> for \<open>SAME\<close>, where the input is
  zero-padded by the total needed, the smaller half before; a patch is flattened in the
  order row, column, depth.
\<close>

definition tf_extract_patches ::
  "'a::zero tensor \<Rightarrow> nat list \<Rightarrow> nat list \<Rightarrow> nat list \<Rightarrow> string \<Rightarrow> error + 'a tensor" where
  "tf_extract_patches images sizes strides rates padding =
     (case (shape images, sizes, strides) of
        ([B, rows, cols, C], [_, kr, kc, _], [_, sr, sc, _]) \<Rightarrow>
          if sr = 0 \<or> sc = 0 \<or> rates \<noteq> [1, 1, 1, 1]
             \<or> (padding \<noteq> ''VALID'' \<and> padding \<noteq> ''SAME'')
          then Inl ValueError
          else
            (let same = (padding = ''SAME'');
                 out_r = (if same then (rows + sr - 1) div sr
                          else if rows < kr then 0 else (rows - kr) div sr + 1);
                 out_c = (if same then (cols + sc - 1) div sc
                          else if cols < kc then 0 else (cols - kc) div sc + 1);
                 pad_top = (if same then ((out_r - 1) * sr + kr - rows) div 2 else 0);
                 pad_left = (if same then ((out_c - 1) * sc + kc - cols) div 2 else 0)
             in Inr (tabulate [B, out_r, out_c, kr * kc * C]
                  (\<lambda>idx. let r = idx ! 1 * sr + idx ! 3 div (kc * C);
                              q = idx ! 2 * sc + idx ! 3 div C mod kc
                          in if pad_top \<le> r \<and> r < pad_top + rows \<and> pad_left \<le> q \<and> q < pad_left + cols
                             then tget images [idx ! 0, r - pad_top, q - pad_left, idx ! 3 mod C]
                             else 0)))
      | _ \<Rightarrow> Inl ValueError)"

lemma num_patches_eq: "0 < n \<Longrightarrow> \<lceil>real n / 2\<rceil> - 1 = int ((n - 1) div 2)"
proof -
  assume n: "0 < n"
  have "\<lceil>real n / 2\<rceil> = \<lceil>real_of_int (int n) / real_of_int 2\<rceil>" by simp
  also have "\<dots> = - (- int n div 2)" by (rule ceiling_divide_eq_div)
  finally show ?thesis using n by simp
qed

lemma tpu_valid_unfold:
  assumes sh: "shape x = [B, n, n, C]" and n: "0 < n"
  shows "tpu_extract_patches_overlap_1 x (PList [1, 3, 3, 1]) (PList [1, 2, 2, 1]) ''VALID'' =
    (let P = (n - 1) div 2;
         temp_shape = [- 1, int P, 2, int P, 2, int C];
         all = Slice None None 1;
         lo = Slice None (Some (int (2 * P))) 1;
         hi = Slice (Some (int 1)) (Some (int (1 + 2 * P))) 1;
         lst = Slice (Some (- 1)) None 1
     in
       ebind (tf_reshape (tf_slice x [all, lo, lo, all]) temp_shape) (\<lambda>center.
       ebind (tf_reshape (tf_slice x [all, lo, hi, all]) temp_shape) (\<lambda>ww_overlap.
       ebind (tf_reshape (tf_slice x [all, hi, lo, all]) temp_shape) (\<lambda>hh_overlap.
       ebind (tf_reshape (tf_slice x [all, hi, hi, all]) temp_shape) (\<lambda>corner_overlap.
       ebind (tf_concat center (tf_slice ww_overlap [all, all, all, all, lst, all]) 4) (\<lambda>aa.
       ebind (tf_concat (tf_slice hh_overlap [all, all, lst, all, all, all])
                (tf_slice corner_overlap [all, all, lst, all, lst, all]) 4) (\<lambda>bb.
       ebind (tf_concat aa bb 2) (\<lambda>out.
         tf_reshape (tf_transpose out [0, 1, 3, 2, 4, 5])
           [- 1, int P, int P, int (3 * 3 * C)]))))))))"
  using n
  by (simp add: tpu_extract_patches_overlap_1_def py_nth_def py_upper_def upper_char_def sh
      num_patches_eq Let_def algebra_simps)


lemma tpu_valid_closed:
  fixes x :: "'a::zero tensor"
  assumes sh: "shape x = [B, n, n, C]" and n: "3 \<le> n" and C: "0 < C"
  shows "tpu_extract_patches_overlap_1 x (PList [1, 3, 3, 1]) (PList [1, 2, 2, 1]) ''VALID'' =
    Inr (tabulate [B, (n - 1) div 2, (n - 1) div 2, 9 * C]
      (\<lambda>idx. tget x [idx ! 0, 2 * idx ! 1 + idx ! 3 div (3 * C),
                       2 * idx ! 2 + idx ! 3 div C mod 3, idx ! 3 mod C]))"
proof -
  define P where "P = (n - 1) div 2"
  have P: "0 < P" "2 * P + 1 \<le> n" using n by (simp_all add: P_def)
  let ?all = "Slice None None 1"
  let ?lo = "Slice None (Some (int (2 * P))) 1"
  let ?hi = "Slice (Some (int 1)) (Some (int (1 + 2 * P))) 1"
  let ?lst = "Slice (Some (- 1)) None 1"
  let ?ts = "[- 1, int P, 2, int P, 2, int C]"
  define W where "W = (\<lambda>a1 a2. tabulate [B, P, 2, P, 2, C]
      (\<lambda>idx. tget x [idx ! 0, a1 + (2 * idx ! 1 + idx ! 2), a2 + (2 * idx ! 3 + idx ! 4), idx ! 5]))"
  have win: "tf_reshape (tf_slice x [?all, s1, s2, ?all]) ?ts = Inr (W a1 a2)"
    if "map2 slice_indices [B, n, n, C] [?all, s1, s2, ?all]
          = [[0..<B], [a1..<a1 + 2 * P], [a2..<a2 + 2 * P], [0..<C]]" for s1 s2 a1 a2
  proof -
    have "tf_slice x [?all, s1, s2, ?all] = tabulate [B, 2 * P, 2 * P, C]
        (\<lambda>idx. tget x [idx ! 0, a1 + idx ! 1, a2 + idx ! 2, idx ! 3])"
      using tf_slice4 [OF sh that] by simp
    then show ?thesis
      using tf_reshape_split [OF P(1) C, of B
          "\<lambda>idx. tget x [idx ! 0, a1 + idx ! 1, a2 + idx ! 2, idx ! 3]"]
      by (simp add: W_def)
  qed
  have sb: "slice_bound n (int (2 * P)) = 2 * P" "slice_bound n (int (1 + 2 * P)) = 1 + 2 * P"
    "slice_bound n (int 1) = 1"
    using P by (simp_all only: slice_bound_nat) 
  note sl = slice_indices_step1 [unfolded One_nat_def [symmetric]]
  have center: "tf_reshape (tf_slice x [?all, ?lo, ?lo, ?all]) ?ts = Inr (W 0 0)"
    by (intro win) (simp only: sl sb zip.simps list.case list.map prod.case option.case add_0)
  have ww: "tf_reshape (tf_slice x [?all, ?lo, ?hi, ?all]) ?ts = Inr (W 0 1)"
    by (intro win) (simp only: sl sb zip.simps list.case list.map prod.case option.case add_0)
  have hh: "tf_reshape (tf_slice x [?all, ?hi, ?lo, ?all]) ?ts = Inr (W 1 0)"
    by (intro win) (simp only: sl sb zip.simps list.case list.map prod.case option.case add_0)
  have corner: "tf_reshape (tf_slice x [?all, ?hi, ?hi, ?all]) ?ts = Inr (W 1 1)"
    by (intro win) (simp only: sl sb zip.simps list.case list.map prod.case option.case add_0)
  have shW: "shape (W a1 a2) = [B, P, 2, P, 2, C]" for a1 a2 by (simp add: W_def)
  have sl_last: "slice_indices 2 (Slice (Some (- 1)) None (Suc 0)) = [1..<2]"
    by (simp add: slice_indices_step1 slice_bound_last del: slice_indices.simps)
  have sl_all: "slice_indices m (Slice None None (Suc 0)) = [0..<m]" for m
    by (simp add: slice_indices_step1 del: slice_indices.simps)
  have sw: "tf_slice (W 0 1) [?all, ?all, ?all, ?all, ?lst, ?all] =
      tabulate [B, P, 2, P, 1, C]
        (\<lambda>idx. tget x [idx ! 0, 2 * idx ! 1 + idx ! 2, 2 * idx ! 3 + 2, idx ! 5])"
  proof -
    have "tf_slice (W 0 1) [?all, ?all, ?all, ?all, ?lst, ?all] =
        tabulate [B - 0, P - 0, 2 - 0, P - 0, 2 - 1, C - 0]
          (\<lambda>idx. tget (W 0 1) [0 + idx ! 0, 0 + idx ! 1, 0 + idx ! 2, 0 + idx ! 3,
                                 1 + idx ! 4, 0 + idx ! 5])"
      by (rule tf_slice6 [OF shW]) (simp_all add: sl_last sl_all del: slice_indices.simps)
    also have "\<dots> = tabulate [B, P, 2, P, 1, C]
        (\<lambda>idx. tget x [idx ! 0, 2 * idx ! 1 + idx ! 2, 2 * idx ! 3 + 2, idx ! 5])"
      unfolding diff_zero
      by (simp, rule tabulate_cong, erule valid_index6E) (simp add: W_def)
    finally show ?thesis .
  qed
  define AA where "AA = tabulate [B, P, 2, P, 3, C]
      (\<lambda>idx. tget x [idx ! 0, 2 * idx ! 1 + idx ! 2, 2 * idx ! 3 + idx ! 4, idx ! 5])"
  have aa: "tf_concat (W 0 0) (tf_slice (W 0 1) [?all, ?all, ?all, ?all, ?lst, ?all]) 4 = Inr AA"
  proof -
    have "tf_concat (W 0 0) (tf_slice (W 0 1) [?all, ?all, ?all, ?all, ?lst, ?all]) 4 =
        Inr (tabulate ([B, P, 2, P, 2, C][4 := [B, P, 2, P, 2, C] ! 4 + [B, P, 2, P, 1, C] ! 4])
          (\<lambda>idx. if idx ! 4 < [B, P, 2, P, 2, C] ! 4
             then tget x [idx ! 0, 0 + (2 * idx ! 1 + idx ! 2), 0 + (2 * idx ! 3 + idx ! 4), idx ! 5]
             else (\<lambda>idx. tget x [idx ! 0, 2 * idx ! 1 + idx ! 2, 2 * idx ! 3 + 2, idx ! 5])
                    (idx[4 := idx ! 4 - [B, P, 2, P, 2, C] ! 4])))"
      unfolding sw unfolding W_def by (rule tf_concat_tabulate) simp_all
    also have "\<dots> = Inr AA"
      unfolding AA_def
      by (simp, rule tabulate_cong, erule valid_index6E) (auto simp: less_Suc_eq numeral_3_eq_3)
    finally show ?thesis .
  qed
  have sh1: "tf_slice (W 1 0) [?all, ?all, ?lst, ?all, ?all, ?all] =
      tabulate [B, P, 1, P, 2, C]
        (\<lambda>idx. tget x [idx ! 0, 2 * idx ! 1 + 2, 2 * idx ! 3 + idx ! 4, idx ! 5])"
  proof -
    have "tf_slice (W 1 0) [?all, ?all, ?lst, ?all, ?all, ?all] =
        tabulate [B - 0, P - 0, 2 - 1, P - 0, 2 - 0, C - 0]
          (\<lambda>idx. tget (W 1 0) [0 + idx ! 0, 0 + idx ! 1, 1 + idx ! 2, 0 + idx ! 3,
                                 0 + idx ! 4, 0 + idx ! 5])"
      by (rule tf_slice6 [OF shW]) (simp_all add: sl_last sl_all del: slice_indices.simps)
    also have "\<dots> = tabulate [B, P, 1, P, 2, C]
        (\<lambda>idx. tget x [idx ! 0, 2 * idx ! 1 + 2, 2 * idx ! 3 + idx ! 4, idx ! 5])"
      unfolding diff_zero
      by (simp, rule tabulate_cong, erule valid_index6E) (simp add: W_def)
    finally show ?thesis .
  qed
  have sc1: "tf_slice (W 1 1) [?all, ?all, ?lst, ?all, ?lst, ?all] =
      tabulate [B, P, 1, P, 1, C]
        (\<lambda>idx. tget x [idx ! 0, 2 * idx ! 1 + 2, 2 * idx ! 3 + 2, idx ! 5])"
  proof -
    have "tf_slice (W 1 1) [?all, ?all, ?lst, ?all, ?lst, ?all] =
        tabulate [B - 0, P - 0, 2 - 1, P - 0, 2 - 1, C - 0]
          (\<lambda>idx. tget (W 1 1) [0 + idx ! 0, 0 + idx ! 1, 1 + idx ! 2, 0 + idx ! 3,
                                 1 + idx ! 4, 0 + idx ! 5])"
      by (rule tf_slice6 [OF shW]) (simp_all add: sl_last sl_all del: slice_indices.simps)
    also have "\<dots> = tabulate [B, P, 1, P, 1, C]
        (\<lambda>idx. tget x [idx ! 0, 2 * idx ! 1 + 2, 2 * idx ! 3 + 2, idx ! 5])"
      unfolding diff_zero
      by (simp, rule tabulate_cong, erule valid_index6E) (simp add: W_def)
    finally show ?thesis .
  qed
  define BB where "BB = tabulate [B, P, 1, P, 3, C]
      (\<lambda>idx. tget x [idx ! 0, 2 * idx ! 1 + 2, 2 * idx ! 3 + idx ! 4, idx ! 5])"
  have bb: "tf_concat (tf_slice (W 1 0) [?all, ?all, ?lst, ?all, ?all, ?all])
              (tf_slice (W 1 1) [?all, ?all, ?lst, ?all, ?lst, ?all]) 4 = Inr BB"
  proof -
    have "tf_concat (tf_slice (W 1 0) [?all, ?all, ?lst, ?all, ?all, ?all])
              (tf_slice (W 1 1) [?all, ?all, ?lst, ?all, ?lst, ?all]) 4 =
        Inr (tabulate ([B, P, 1, P, 2, C][4 := [B, P, 1, P, 2, C] ! 4 + [B, P, 1, P, 1, C] ! 4])
          (\<lambda>idx. if idx ! 4 < [B, P, 1, P, 2, C] ! 4
             then tget x [idx ! 0, 2 * idx ! 1 + 2, 2 * idx ! 3 + idx ! 4, idx ! 5]
             else (\<lambda>idx. tget x [idx ! 0, 2 * idx ! 1 + 2, 2 * idx ! 3 + 2, idx ! 5])
                    (idx[4 := idx ! 4 - [B, P, 1, P, 2, C] ! 4])))"
      unfolding sh1 sc1 by (rule tf_concat_tabulate) simp_all
    also have "\<dots> = Inr BB"
      unfolding BB_def
      by (simp, rule tabulate_cong, erule valid_index6E) (auto simp: less_Suc_eq numeral_3_eq_3)
    finally show ?thesis .
  qed
  define OUT where "OUT = tabulate [B, P, 3, P, 3, C]
      (\<lambda>idx. tget x [idx ! 0, 2 * idx ! 1 + idx ! 2, 2 * idx ! 3 + idx ! 4, idx ! 5])"
  have out: "tf_concat AA BB 2 = Inr OUT"
  proof -
    have "tf_concat AA BB 2 =
        Inr (tabulate ([B, P, 2, P, 3, C][2 := [B, P, 2, P, 3, C] ! 2 + [B, P, 1, P, 3, C] ! 2])
          (\<lambda>idx. if idx ! 2 < [B, P, 2, P, 3, C] ! 2
             then tget x [idx ! 0, 2 * idx ! 1 + idx ! 2, 2 * idx ! 3 + idx ! 4, idx ! 5]
             else (\<lambda>idx. tget x [idx ! 0, 2 * idx ! 1 + 2, 2 * idx ! 3 + idx ! 4, idx ! 5])
                    (idx[2 := idx ! 2 - [B, P, 2, P, 3, C] ! 2])))"
      unfolding AA_def BB_def by (rule tf_concat_tabulate) simp_all
    also have "\<dots> = Inr OUT"
      unfolding OUT_def
      by (simp, rule tabulate_cong, erule valid_index6E) (auto simp: less_Suc_eq numeral_3_eq_3)
    finally show ?thesis .
  qed
  have fin: "tf_reshape (tf_transpose OUT [0, 1, 3, 2, 4, 5]) [- 1, int P, int P, int (3 * 3 * C)]
      = Inr (tabulate [B, P, P, 9 * C]
      (\<lambda>idx. tget x [idx ! 0, 2 * idx ! 1 + idx ! 3 div (3 * C),
                       2 * idx ! 2 + idx ! 3 div C mod 3, idx ! 3 mod C]))"
    unfolding OUT_def tf_transpose_0132
    by (simp only: tf_reshape_merge [OF P(1) C]) simp
  show ?thesis
    unfolding tpu_valid_unfold [OF sh less_le_trans [OF _ n, of 0, simplified]] Let_def
      P_def [symmetric]
    by (simp only: center ww hh corner ebind_simps aa bb out fin)
qed

lemma tabulate_cong2:
  "s = s' \<Longrightarrow> (\<And>idx. valid_index s' idx \<Longrightarrow> f idx = g idx) \<Longrightarrow> tabulate s f = tabulate s' g"
  using tabulate_cong [of s' f g] by simp

lemma patch_offsets:
  fixes m C :: nat
  assumes "m < 9 * C" "0 < C"
  shows "m div (3 * C) < 3" "m div C mod 3 < 3" "m mod C < C"
  using assms by (simp_all add: less_mult_imp_div_less)

lemma tf_valid_closed:
  fixes x :: "'a::zero tensor"
  assumes sh: "shape x = [B, n, n, C]" and n: "3 \<le> n" and C: "0 < C"
  shows "tf_extract_patches x [1, 3, 3, 1] [1, 2, 2, 1] [1, 1, 1, 1] ''VALID'' =
    Inr (tabulate [B, (n - 1) div 2, (n - 1) div 2, 9 * C]
      (\<lambda>idx. tget x [idx ! 0, 2 * idx ! 1 + idx ! 3 div (3 * C),
                       2 * idx ! 2 + idx ! 3 div C mod 3, idx ! 3 mod C]))"
proof -
  have o: "Suc ((n - 3) div 2) = (n - 1) div 2" using n by presburger
  have "tabulate [B, Suc ((n - 3) div 2), Suc ((n - 3) div 2), 9 * C]
        (\<lambda>idx. if idx ! 1 * 2 + idx ! 3 div (3 * C) < n \<and> idx ! 2 * 2 + idx ! 3 div C mod 3 < n
                then tget x [idx ! 0, idx ! 1 * 2 + idx ! 3 div (3 * C) - 0,
                             idx ! 2 * 2 + idx ! 3 div C mod 3 - 0, idx ! 3 mod C]
                else 0)
      = tabulate [B, (n - 1) div 2, (n - 1) div 2, 9 * C]
      (\<lambda>idx. tget x [idx ! 0, 2 * idx ! 1 + idx ! 3 div (3 * C),
                       2 * idx ! 2 + idx ! 3 div C mod 3, idx ! 3 mod C])"
  proof (rule tabulate_cong2)
    show "[B, Suc ((n - 3) div 2), Suc ((n - 3) div 2), 9 * C]
        = [B, (n - 1) div 2, (n - 1) div 2, 9 * C]"
      by (simp only: o)
    fix idx assume "valid_index [B, (n - 1) div 2, (n - 1) div 2, 9 * C] idx"
    then obtain b i j m where idx: "idx = [b, i, j, m]" and
      b: "i < (n - 1) div 2" "j < (n - 1) div 2" "m < 9 * C"
      by (elim valid_index4E)
    note d = patch_offsets [OF b(3) C]
    have "i * 2 + m div (3 * C) < n" "j * 2 + m div C mod 3 < n"
      using b(1,2) d(1,2) n by linarith+
    then show "(if idx ! 1 * 2 + idx ! 3 div (3 * C) < n \<and> idx ! 2 * 2 + idx ! 3 div C mod 3 < n
                then tget x [idx ! 0, idx ! 1 * 2 + idx ! 3 div (3 * C) - 0,
                             idx ! 2 * 2 + idx ! 3 div C mod 3 - 0, idx ! 3 mod C]
                else 0)
          = tget x [idx ! 0, 2 * idx ! 1 + idx ! 3 div (3 * C),
                       2 * idx ! 2 + idx ! 3 div C mod 3, idx ! 3 mod C]"
      using idx by (simp add: mult.commute)
  qed
  then show ?thesis
    using n by (simp add: tf_extract_patches_def sh Let_def cong: if_cong)
qed

lemma tpu_same_is_valid_on_padded:
  "tpu_extract_patches_overlap_1 x (PList [1, 3, 3, 1]) (PList [1, 2, 2, 1]) ''SAME'' =
   tpu_extract_patches_overlap_1 (tf_pad x [(0, 0), (1, 1), (1, 1), (0, 0)])
     (PList [1, 3, 3, 1]) (PList [1, 2, 2, 1]) ''VALID''"
  by (simp add: tpu_extract_patches_overlap_1_def py_nth_def py_upper_def upper_char_def)

lemma shape_tf_pad4:
  "shape x = [B, n, m, C] \<Longrightarrow>
   shape (tf_pad x [(0, 0), (p, p), (q, q), (0, 0)]) = [B, p + n + p, q + m + q, C]"
  by (simp add: tf_pad_def)

lemma tget_tf_pad4:
  assumes "shape x = [B, n, m, C]" "b < B" "r < p + n + p" "s < q + m + q" "c < C"
  shows "tget (tf_pad x [(0, 0), (p, p), (q, q), (0, 0)]) [b, r, s, c] =
     (if p \<le> r \<and> r < p + n \<and> q \<le> s \<and> s < q + m then tget x [b, r - p, s - q, c] else 0)"
  using assms by (simp add: tf_pad_def)

lemma tpu_same_closed:
  fixes x :: "'a::zero tensor"
  assumes sh: "shape x = [B, n, n, C]" and n: "0 < n" and C: "0 < C"
  shows "tpu_extract_patches_overlap_1 x (PList [1, 3, 3, 1]) (PList [1, 2, 2, 1]) ''SAME'' =
    Inr (tabulate [B, (n + 1) div 2, (n + 1) div 2, 9 * C]
      (\<lambda>idx. let r = 2 * idx ! 1 + idx ! 3 div (3 * C); q = 2 * idx ! 2 + idx ! 3 div C mod 3
              in if 1 \<le> r \<and> r < 1 + n \<and> 1 \<le> q \<and> q < 1 + n
                 then tget x [idx ! 0, r - 1, q - 1, idx ! 3 mod C] else 0))"
proof -
  let ?px = "tf_pad x [(0, 0), (1, 1), (1, 1), (0, 0)]"
  have shp: "shape ?px = [B, n + 2, n + 2, C]"
    using shape_tf_pad4 [OF sh, of 1 1] by simp
  have "tpu_extract_patches_overlap_1 ?px (PList [1, 3, 3, 1]) (PList [1, 2, 2, 1]) ''VALID'' =
    Inr (tabulate [B, (n + 2 - 1) div 2, (n + 2 - 1) div 2, 9 * C]
      (\<lambda>idx. tget ?px [idx ! 0, 2 * idx ! 1 + idx ! 3 div (3 * C),
                       2 * idx ! 2 + idx ! 3 div C mod 3, idx ! 3 mod C]))"
    using n by (intro tpu_valid_closed [OF shp _ C]) simp
  also have "tabulate [B, (n + 2 - 1) div 2, (n + 2 - 1) div 2, 9 * C]
      (\<lambda>idx. tget ?px [idx ! 0, 2 * idx ! 1 + idx ! 3 div (3 * C),
                       2 * idx ! 2 + idx ! 3 div C mod 3, idx ! 3 mod C])
    = tabulate [B, (n + 1) div 2, (n + 1) div 2, 9 * C]
      (\<lambda>idx. let r = 2 * idx ! 1 + idx ! 3 div (3 * C); q = 2 * idx ! 2 + idx ! 3 div C mod 3
              in if 1 \<le> r \<and> r < 1 + n \<and> 1 \<le> q \<and> q < 1 + n
                 then tget x [idx ! 0, r - 1, q - 1, idx ! 3 mod C] else 0)"
  proof (rule tabulate_cong2)
    show "[B, (n + 2 - 1) div 2, (n + 2 - 1) div 2, 9 * C] = [B, (n + 1) div 2, (n + 1) div 2, 9 * C]"
      by simp
    fix idx assume "valid_index [B, (n + 1) div 2, (n + 1) div 2, 9 * C] idx"
    then obtain b i j m where idx: "idx = [b, i, j, m]" and
      b: "b < B" "i < (n + 1) div 2" "j < (n + 1) div 2" "m < 9 * C"
      by (elim valid_index4E)
    note d = patch_offsets [OF b(4) C]
    have r: "2 * i + m div (3 * C) < 1 + n + 1" "2 * j + m div C mod 3 < 1 + n + 1"
      using b(2,3) d(1,2) by linarith+
    show "tget ?px [idx ! 0, 2 * idx ! 1 + idx ! 3 div (3 * C),
                       2 * idx ! 2 + idx ! 3 div C mod 3, idx ! 3 mod C]
        = (let r = 2 * idx ! 1 + idx ! 3 div (3 * C); q = 2 * idx ! 2 + idx ! 3 div C mod 3
              in if 1 \<le> r \<and> r < 1 + n \<and> 1 \<le> q \<and> q < 1 + n
                 then tget x [idx ! 0, r - 1, q - 1, idx ! 3 mod C] else 0)"
      using tget_tf_pad4 [OF sh b(1) r d(3)] idx by (simp add: Let_def)
  qed
  finally show ?thesis by (simp only: tpu_same_is_valid_on_padded)
qed

lemma tf_same_odd_closed:
  fixes x :: "'a::zero tensor"
  assumes sh: "shape x = [B, n, n, C]" and n: "odd n" and C: "0 < C"
  shows "tf_extract_patches x [1, 3, 3, 1] [1, 2, 2, 1] [1, 1, 1, 1] ''SAME'' =
    Inr (tabulate [B, (n + 1) div 2, (n + 1) div 2, 9 * C]
      (\<lambda>idx. let r = 2 * idx ! 1 + idx ! 3 div (3 * C); q = 2 * idx ! 2 + idx ! 3 div C mod 3
              in if 1 \<le> r \<and> r < 1 + n \<and> 1 \<le> q \<and> q < 1 + n
                 then tget x [idx ! 0, r - 1, q - 1, idx ! 3 mod C] else 0))"
proof -
  have p: "(2 * (Suc n div 2 - Suc 0) + 3 - n) div 2 = Suc 0" using n by presburger
  have o: "(n + 2 - 1) div 2 = (n + 1) div 2" by simp
  show ?thesis
    by (simp add: tf_extract_patches_def sh Let_def p o mult.commute cong: if_cong)
qed

text \<open>
  Claim C2 (as amended). For every 4-D input with equal height and width \<open>n\<close> and at least
  one channel, kernel size 3, strides 2 and rate 1, \<open>tpu_extract_patches_overlap_1\<close> returns
  exactly the patch tensor of \<^verbatim>\<open>tf.image.extract_patches\<close> with the same arguments (same
  shape \<open>[batch, num_patches, num_patches, 3 * 3 * channels]\<close>, same elements) when the
  padding is \<open>VALID\<close> and \<open>n \<ge> 3\<close> (the way \<open>UnfoldMatmulFold\<close> calls it, on an input it
  has padded itself), and when the padding is \<open>SAME\<close> and \<open>n\<close> is odd.
\<close>

theorem tpu_extract_patches_refines_tf:
  fixes x :: "'a::zero tensor"
  assumes "shape x = [B, n, n, C]" and "0 < C"
  shows "(3 \<le> n \<longrightarrow>
           tpu_extract_patches_overlap_1 x (PList [1, 3, 3, 1]) (PList [1, 2, 2, 1]) ''VALID''
             = tf_extract_patches x [1, 3, 3, 1] [1, 2, 2, 1] [1, 1, 1, 1] ''VALID''
         \<and> (\<exists>t. tf_extract_patches x [1, 3, 3, 1] [1, 2, 2, 1] [1, 1, 1, 1] ''VALID'' = Inr t
                \<and> shape t = [B, (n - 1) div 2, (n - 1) div 2, 3 * 3 * C]))
       \<and> (odd n \<longrightarrow>
           tpu_extract_patches_overlap_1 x (PList [1, 3, 3, 1]) (PList [1, 2, 2, 1]) ''SAME''
             = tf_extract_patches x [1, 3, 3, 1] [1, 2, 2, 1] [1, 1, 1, 1] ''SAME''
         \<and> (\<exists>t. tf_extract_patches x [1, 3, 3, 1] [1, 2, 2, 1] [1, 1, 1, 1] ''SAME'' = Inr t
                \<and> shape t = [B, (n + 1) div 2, (n + 1) div 2, 3 * 3 * C]))"
proof (intro conjI impI)
  assume n: "3 \<le> n"
  show "tpu_extract_patches_overlap_1 x (PList [1, 3, 3, 1]) (PList [1, 2, 2, 1]) ''VALID''
      = tf_extract_patches x [1, 3, 3, 1] [1, 2, 2, 1] [1, 1, 1, 1] ''VALID''"
    by (simp only: tpu_valid_closed [OF assms(1) n assms(2)]
        tf_valid_closed [OF assms(1) n assms(2)])
  show "\<exists>t. tf_extract_patches x [1, 3, 3, 1] [1, 2, 2, 1] [1, 1, 1, 1] ''VALID'' = Inr t
      \<and> shape t = [B, (n - 1) div 2, (n - 1) div 2, 3 * 3 * C]"
    unfolding tf_valid_closed [OF assms(1) n assms(2)] by simp
next
  assume n: "odd n"
  then have n0: "0 < n" by (cases n) simp_all
  show "tpu_extract_patches_overlap_1 x (PList [1, 3, 3, 1]) (PList [1, 2, 2, 1]) ''SAME''
      = tf_extract_patches x [1, 3, 3, 1] [1, 2, 2, 1] [1, 1, 1, 1] ''SAME''"
    by (simp only: tpu_same_closed [OF assms(1) n0 assms(2)]
        tf_same_odd_closed [OF assms(1) n assms(2)])
  show "\<exists>t. tf_extract_patches x [1, 3, 3, 1] [1, 2, 2, 1] [1, 1, 1, 1] ''SAME'' = Inr t
      \<and> shape t = [B, (n + 1) div 2, (n + 1) div 2, 3 * 3 * C]"
    unfolding tf_same_odd_closed [OF assms(1) n assms(2)] by simp
qed

theorem tpu_extract_patches_refines_tf_witness:
  "shape \<lparr>shape = [1, 3, 3, 1], flat = [1, 2, 3, 4, 5, 6, 7, 8, 9 :: real]\<rparr> = [1, 3, 3, 1]
   \<and> (0::nat) < 1 \<and> (3::nat) \<le> 3 \<and> odd (3::nat)
   \<and> tpu_extract_patches_overlap_1 \<lparr>shape = [1, 3, 3, 1], flat = [1, 2, 3, 4, 5, 6, 7, 8, 9 :: real]\<rparr>
        (PList [1, 3, 3, 1]) (PList [1, 2, 2, 1]) ''VALID''
      = tf_extract_patches \<lparr>shape = [1, 3, 3, 1], flat = [1, 2, 3, 4, 5, 6, 7, 8, 9 :: real]\<rparr>
        [1, 3, 3, 1] [1, 2, 2, 1] [1, 1, 1, 1] ''VALID''
   \<and> tpu_extract_patches_overlap_1 \<lparr>shape = [1, 3, 3, 1], flat = [1, 2, 3, 4, 5, 6, 7, 8, 9 :: real]\<rparr>
        (PList [1, 3, 3, 1]) (PList [1, 2, 2, 1]) ''SAME''
      = tf_extract_patches \<lparr>shape = [1, 3, 3, 1], flat = [1, 2, 3, 4, 5, 6, 7, 8, 9 :: real]\<rparr>
        [1, 3, 3, 1] [1, 2, 2, 1] [1, 1, 1, 1] ''SAME''"
  using tpu_extract_patches_refines_tf
    [of "\<lparr>shape = [1, 3, 3, 1], flat = [1, 2, 3, 4, 5, 6, 7, 8, 9 :: real]\<rparr>" 1 3 1]
  by simp

text \<open>
  With \<open>SAME\<close> padding and an even size the two differ: the repository's routine pads
  \<open>kernel_size // 2\<close> on both sides, the framework pads one row and column at the end only.
\<close>

theorem tpu_extract_patches_same_counterexample:
  "tpu_extract_patches_overlap_1 \<lparr>shape = [1, 2, 2, 1], flat = [1, 2, 3, 4 :: real]\<rparr>
        (PInt 3) (PInt 2) ''SAME''
     = Inr \<lparr>shape = [1, 1, 1, 9], flat = [0, 0, 0, 0, 1, 2, 0, 3, 4]\<rparr>
   \<and> tf_extract_patches \<lparr>shape = [1, 2, 2, 1], flat = [1, 2, 3, 4 :: real]\<rparr>
        [1, 3, 3, 1] [1, 2, 2, 1] [1, 1, 1, 1] ''SAME''
     = Inr \<lparr>shape = [1, 1, 1, 9], flat = [1, 2, 0, 3, 4, 0, 0, 0, 0]\<rparr>"
  by code_simp

section \<open>The layer graphs built by \<^verbatim>\<open>common_layers\<close> and \<^verbatim>\<open>coatnet\<close>\<close>

text \<open>
  The functions of \<^verbatim>\<open>common_layers.py\<close> and \<^verbatim>\<open>coatnet.py\<close> take a symbolic Keras tensor and
  return the symbolic tensor of the layers they apply to it. A symbolic tensor is modelled by
  the graph that computes it: \<open>Input shape\<close> (the shape without the batch dimension) or a layer
  applied to symbolic tensors. A layer keeps the constructor arguments the code passes, in
  the order of the comments below; \<open>reduce_mean\<close> is the operation \<^verbatim>\<open>tf.reduce_mean\<close>.
  \<open>krank\<close> is \<^verbatim>\<open>len(x.shape)\<close> and \<open>kchannels\<close> is \<^verbatim>\<open>x.shape[-1]\<close> (the data format is
  \<^verbatim>\<open>channels_last\<close>, the framework's default).
\<close>

text \<open>\<^verbatim>\<open>str.lower\<close> on ASCII strings.\<close>

definition lower_char :: "char \<Rightarrow> char" where
  "lower_char c =
     (if (65::nat) \<le> of_char c \<and> of_char c \<le> (90::nat)
      then (case c of Char b0 b1 b2 b3 b4 b5 b6 b7 \<Rightarrow> Char b0 b1 b2 b3 b4 True b6 b7)
      else c)"

definition py_lower :: "string \<Rightarrow> string" where "py_lower s = map lower_char s"

text \<open>\<^verbatim>\<open>name and name + suffix\<close>: a falsy name (\<open>None\<close> or the empty string) is returned as it is.\<close>

definition name_and :: "string option \<Rightarrow> string \<Rightarrow> string option" where
  "name_and name suffix =
     (case name of None \<Rightarrow> None | Some n \<Rightarrow> if n = [] then Some [] else Some (n @ suffix))"

datatype ksize = KInt nat | KPair nat nat

datatype activation_fn = hard_swish | ByName string

text \<open>
  \<^item> \<open>ZeroPadding2D padding name\<close>
  \<^item> \<open>Conv2D filters kernel_size strides padding use_bias groups name\<close>
  \<^item> \<open>DepthwiseConv2D kernel_size strides padding use_bias name\<close>
  \<^item> \<open>BatchNormalization axis momentum epsilon zero_gamma name\<close>
  \<^item> \<open>Activation activation name\<close>, \<open>PReLU shared_axes alpha name\<close>
  \<^item> \<open>AvgPool2D pool_size strides padding name\<close>
  \<^item> \<open>Dropout rate noise_shape name\<close>, \<open>Multiply name\<close>, \<open>Add\<close>
  \<^item> \<open>reduce_mean axes keepdims\<close>
\<close>

datatype layer =
    ZeroPadding2D nat "string option"
  | Conv2D int ksize nat string bool int "string option"
  | DepthwiseConv2D ksize nat string bool "string option"
  | BatchNormalization int real real bool "string option"
  | Activation activation_fn "string option"
  | PReLU "nat list" real "string option"
  | AvgPool2D nat nat string "string option"
  | Dropout real "nat option list" "string option"
  | Multiply "string option"
  | Add
  | reduce_mean "nat list" bool

datatype ktensor = Input "nat list" | Apply layer "ktensor list"

fun krank :: "ktensor \<Rightarrow> nat" where
  "krank (Input s) = 1 + length s"
| "krank (Apply (reduce_mean axes keepdims) [x]) =
     (if keepdims then krank x else krank x - length axes)"
| "krank (Apply l (x # xs)) = krank x"
| "krank (Apply l []) = 0"

fun kchannels :: "ktensor \<Rightarrow> int" where
  "kchannels (Input s) = int (last s)"
| "kchannels (Apply (Conv2D filters k s p ub g nm) xs) = filters"
| "kchannels (Apply l (x # xs)) = kchannels x"
| "kchannels (Apply l []) = 0"

definition BATCH_NORM_DECAY :: real where "BATCH_NORM_DECAY = 0.9"
definition BATCH_NORM_EPSILON :: real where "BATCH_NORM_EPSILON = 1 / 10 ^ 5"

text \<open>
  \<^verbatim>\<open>
  def activation_by_name(inputs, activation="relu", name=None):
      layer_name = name and activation and name + activation
      if activation == "hard_swish":
          return keras.layers.Activation(activation=hard_swish, name=layer_name)(inputs)
      elif activation.lower() == "prelu":
          shared_axes = list(range(1, len(inputs.shape)))
          shared_axes.pop(-1 if K.image_data_format() == "channels_last" else 0)
          return keras.layers.PReLU(shared_axes=shared_axes, alpha_initializer=tf.initializers.Constant(0.25), name=layer_name)(inputs)
      elif activation:
          return keras.layers.Activation(activation=activation, name=layer_name)(inputs)
      else:
          return inputs
  \<close>
\<close>

definition activation_by_name :: "ktensor \<Rightarrow> string \<Rightarrow> string option \<Rightarrow> ktensor" where
  "activation_by_name inputs activation name =
     (let layer_name = (case name of None \<Rightarrow> None
                        | Some n \<Rightarrow> if n = [] then Some []
                                   else if activation = [] then Some [] else Some (n @ activation))
      in if activation = ''hard_swish'' then Apply (Activation hard_swish layer_name) [inputs]
         else if py_lower activation = ''prelu'' then
           (let shared_axes = butlast [1..<krank inputs]
            in Apply (PReLU shared_axes 0.25 layer_name) [inputs])
         else if activation \<noteq> [] then Apply (Activation (ByName activation) layer_name) [inputs]
         else inputs)"

definition batchnorm_with_activation ::
  "ktensor \<Rightarrow> string \<Rightarrow> bool \<Rightarrow> bool \<Rightarrow> string option \<Rightarrow> ktensor" where
  "batchnorm_with_activation inputs activation zero_gamma act_first name =
     (let bn_axis = - 1;
          inputs = (if act_first \<and> activation \<noteq> [] then activation_by_name inputs activation name
                    else inputs);
          nn = Apply (BatchNormalization bn_axis BATCH_NORM_DECAY BATCH_NORM_EPSILON zero_gamma
                        (name_and name ''bn'')) [inputs]
      in if \<not> act_first \<and> activation \<noteq> [] then activation_by_name nn activation name else nn)"

text \<open>
  \<^verbatim>\<open>
  def conv2d_no_bias(inputs, filters, kernel_size, strides=1, padding="VALID", use_bias=False, groups=1, name=None, **kwargs):
      pad = max(kernel_size) // 2 if isinstance(kernel_size, (list, tuple)) else kernel_size // 2
      if padding.upper() == "SAME" and pad != 0:
          inputs = keras.layers.ZeroPadding2D(padding=pad, name=name and name + "pad")(inputs)
      groups = max(1, groups)
      if groups == filters:
          return keras.layers.DepthwiseConv2D(kernel_size, strides=strides, padding="VALID", use_bias=use_bias, ..., name=name and name + "conv", **kwargs)(inputs)
      else:
          return keras.layers.Conv2D(filters, kernel_size, strides=strides, padding="VALID", use_bias=use_bias, groups=groups, ..., name=name and name + "conv", **kwargs)(inputs)

  def depthwise_conv2d_no_bias(inputs, kernel_size, strides=1, padding="VALID", use_bias=False, name=None, **kwargs):
      pad = max(kernel_size) // 2 if isinstance(kernel_size, (list, tuple)) else kernel_size // 2
      if padding.upper() == "SAME" and pad != 0:
          inputs = keras.layers.ZeroPadding2D(padding=pad, name=name and name + "dw_pad")(inputs)
      return keras.layers.DepthwiseConv2D(kernel_size, strides=strides, padding="valid", use_bias=use_bias, ..., name=name and name + "dw_conv", **kwargs)(inputs)
  \<close>
  A kernel size is an integer or a pair.
\<close>

definition ksize_pad :: "ksize \<Rightarrow> nat" where
  "ksize_pad kernel_size = (case kernel_size of KPair a b \<Rightarrow> max a b div 2 | KInt k \<Rightarrow> k div 2)"

definition conv2d_no_bias ::
  "ktensor \<Rightarrow> int \<Rightarrow> ksize \<Rightarrow> nat \<Rightarrow> string \<Rightarrow> bool \<Rightarrow> int \<Rightarrow> string option \<Rightarrow> ktensor" where
  "conv2d_no_bias inputs filters kernel_size strides padding use_bias groups name =
     (let pad = ksize_pad kernel_size;
          inputs = (if py_upper padding = ''SAME'' \<and> pad \<noteq> 0
                    then Apply (ZeroPadding2D pad (name_and name ''pad'')) [inputs] else inputs);
          groups = max 1 groups
      in if groups = filters
         then Apply (DepthwiseConv2D kernel_size strides ''VALID'' use_bias (name_and name ''conv''))
                [inputs]
         else Apply (Conv2D filters kernel_size strides ''VALID'' use_bias groups
                       (name_and name ''conv'')) [inputs])"

definition depthwise_conv2d_no_bias ::
  "ktensor \<Rightarrow> ksize \<Rightarrow> nat \<Rightarrow> string \<Rightarrow> bool \<Rightarrow> string option \<Rightarrow> ktensor" where
  "depthwise_conv2d_no_bias inputs kernel_size strides padding use_bias name =
     (let pad = ksize_pad kernel_size;
          inputs = (if py_upper padding = ''SAME'' \<and> pad \<noteq> 0
                    then Apply (ZeroPadding2D pad (name_and name ''dw_pad'')) [inputs] else inputs)
      in Apply (DepthwiseConv2D kernel_size strides ''valid'' use_bias (name_and name ''dw_conv''))
           [inputs])"

text \<open>
  \<^verbatim>\<open>
  def se_module(inputs, se_ratio=0.25, divisor=8, activation="relu", use_bias=True, name=None):
      channel_axis = 1 if K.image_data_format() == "channels_first" else -1
      h_axis, w_axis = [2, 3] if K.image_data_format() == "channels_first" else [1, 2]
      filters = inputs.shape[channel_axis]
      reduction = make_divisible(filters * se_ratio, divisor)
      se = tf.reduce_mean(inputs, [h_axis, w_axis], keepdims=True)
      se = keras.layers.Conv2D(reduction, kernel_size=1, use_bias=use_bias, ..., name=name and name + "1_conv")(se)
      se = activation_by_name(se, activation=activation, name=name)
      se = keras.layers.Conv2D(filters, kernel_size=1, use_bias=use_bias, ..., name=name and name + "2_conv")(se)
      se = activation_by_name(se, activation="sigmoid", name=name)
      return keras.layers.Multiply(name=name and name + "out")([inputs, se])

  def drop_block(inputs, drop_rate=0, name=None):
      if drop_rate > 0:
          noise_shape = [None] + [1] * (len(inputs.shape) - 1)  # [None, 1, 1, 1]
          return keras.layers.Dropout(drop_rate, noise_shape=noise_shape, name=name and name + "drop")(inputs)
      else:
          return inputs
  \<close>
\<close>

definition se_module ::
  "ktensor \<Rightarrow> real \<Rightarrow> int \<Rightarrow> string \<Rightarrow> bool \<Rightarrow> string option \<Rightarrow> ktensor" where
  "se_module inputs se_ratio divisor activation use_bias name =
     (let h_axis = 1; w_axis = 2;
          filters = kchannels inputs;
          reduction = make_divisible (real_of_int filters * se_ratio) divisor None;
          se = Apply (reduce_mean [h_axis, w_axis] True) [inputs];
          se = Apply (Conv2D reduction (KInt 1) 1 ''valid'' use_bias 1 (name_and name ''1_conv'')) [se];
          se = activation_by_name se activation name;
          se = Apply (Conv2D filters (KInt 1) 1 ''valid'' use_bias 1 (name_and name ''2_conv'')) [se];
          se = activation_by_name se ''sigmoid'' name
      in Apply (Multiply (name_and name ''out'')) [inputs, se])"

definition drop_block :: "ktensor \<Rightarrow> real \<Rightarrow> string option \<Rightarrow> ktensor" where
  "drop_block inputs drop_rate name =
     (if drop_rate > 0 then
        (let noise_shape = [None] @ replicate (krank inputs - 1) (Some 1)
         in Apply (Dropout drop_rate noise_shape (name_and name ''drop'')) [inputs])
      else inputs)"

text \<open>
  \<^verbatim>\<open>
  def res_MBConv(inputs, output_channel, conv_short_cut=True, strides=1, expansion=4, se_ratio=0, drop_rate=0, activation="gelu", name=""):
      preact = batchnorm_with_activation(inputs, activation=activation, zero_gamma=False, name=name + "preact_")
      if conv_short_cut:
          shortcut = keras.layers.AvgPool2D(strides, strides=strides, padding="SAME", name=name + "shortcut_pool")(preact) if strides > 1 else preact
          shortcut = conv2d_no_bias(shortcut, output_channel, 1, strides=1, name=name + "shortcut_")
      else:
          shortcut = inputs
      input_channel = inputs.shape[-1]
      nn = conv2d_no_bias(preact, input_channel * expansion, 1, strides=1, padding="same", name=name + "expand_")
      nn = batchnorm_with_activation(nn, activation=activation, name=name + "expand_")
      nn = depthwise_conv2d_no_bias(nn, 3, strides=strides, padding="same", name=name + "MB_")
      nn = batchnorm_with_activation(nn, activation=activation, name=name + "MB_dw_")
      if se_ratio:
          nn = se_module(nn, se_ratio=se_ratio / expansion, activation=activation, name=name + "se_")
      nn = conv2d_no_bias(nn, output_channel, 1, strides=1, padding="same", name=name + "MB_pw_")
      nn = drop_block(nn, drop_rate=drop_rate, name=name)
      return keras.layers.Add()([shortcut, nn])
  \<close>
\<close>

definition res_MBConv ::
  "ktensor \<Rightarrow> int \<Rightarrow> bool \<Rightarrow> nat \<Rightarrow> int \<Rightarrow> real \<Rightarrow> real \<Rightarrow> string \<Rightarrow> string
     \<Rightarrow> error + ktensor" where
  "res_MBConv inputs output_channel conv_short_cut strides expansion se_ratio drop_rate
       activation name =
     (let preact = batchnorm_with_activation inputs activation False False (Some (name @ ''preact_''));
          shortcut =
            (if conv_short_cut then
               (let shortcut = (if strides > 1
                      then Apply (AvgPool2D strides strides ''SAME'' (Some (name @ ''shortcut_pool'')))
                             [preact]
                      else preact)
                in conv2d_no_bias shortcut output_channel (KInt 1) 1 ''VALID'' False 1
                     (Some (name @ ''shortcut_'')))
             else inputs);
          input_channel = kchannels inputs;
          nn = conv2d_no_bias preact (input_channel * expansion) (KInt 1) 1 ''same'' False 1
                 (Some (name @ ''expand_''));
          nn = batchnorm_with_activation nn activation False False (Some (name @ ''expand_''));
          nn = depthwise_conv2d_no_bias nn (KInt 3) strides ''same'' False (Some (name @ ''MB_''));
          nn = batchnorm_with_activation nn activation False False (Some (name @ ''MB_dw_''))
      in ebind (if se_ratio \<noteq> 0 then
                  ebind (py_truediv se_ratio (real_of_int expansion)) (\<lambda>ratio.
                    Inr (se_module nn ratio 8 activation True (Some (name @ ''se_''))))
                else Inr nn) (\<lambda>nn.
         (let nn = conv2d_no_bias nn output_channel (KInt 1) 1 ''same'' False 1
                     (Some (name @ ''MB_pw_''));
              nn = drop_block nn drop_rate (Some name)
          in Inr (Apply Add [shortcut, nn]))))"




text \<open>
  Claim C7, at \<open>output_channel = 1\<close>. The projection \<^verbatim>\<open>conv2d_no_bias(nn, output_channel, 1, ...)\<close>
  is called with the default \<open>groups = 1\<close>, which equals \<open>filters = 1\<close>: the layer built is a
  1\<times>1 \<open>DepthwiseConv2D\<close>, which keeps the channels of its input, so the block returns 4
  channels where the claim says \<open>output_channel = 1\<close>.
\<close>

theorem res_MBConv_projection_depthwise:
  "res_MBConv (Input [8, 8, 4]) 1 False 1 1 0 0 ''gelu'' ''b_'' =
     Inr (Apply Add [Input [8, 8, 4],
       Apply (DepthwiseConv2D (KInt 1) 1 ''VALID'' False (Some ''b_MB_pw_conv''))
        [Apply (Activation (ByName ''gelu'') (Some ''b_MB_dw_gelu''))
          [Apply (BatchNormalization (- 1) BATCH_NORM_DECAY BATCH_NORM_EPSILON False (Some ''b_MB_dw_bn''))
            [Apply (DepthwiseConv2D (KInt 3) 1 ''valid'' False (Some ''b_MB_dw_conv''))
              [Apply (ZeroPadding2D 1 (Some ''b_MB_dw_pad''))
                [Apply (Activation (ByName ''gelu'') (Some ''b_expand_gelu''))
                  [Apply (BatchNormalization (- 1) BATCH_NORM_DECAY BATCH_NORM_EPSILON False (Some ''b_expand_bn''))
                    [Apply (Conv2D 4 (KInt 1) 1 ''VALID'' False 1 (Some ''b_expand_conv''))
                      [Apply (Activation (ByName ''gelu'') (Some ''b_preact_gelu''))
                        [Apply (BatchNormalization (- 1) BATCH_NORM_DECAY BATCH_NORM_EPSILON False (Some ''b_preact_bn''))
                          [Input [8, 8, 4]]]]]]]]]]]])
   \<and> (case res_MBConv (Input [8, 8, 4]) 1 False 1 1 0 0 ''gelu'' ''b_'' of
         Inr out \<Rightarrow> kchannels out = 4 | Inl e \<Rightarrow> False)"
  by (simp add: res_MBConv_def batchnorm_with_activation_def activation_by_name_def
      conv2d_no_bias_def depthwise_conv2d_no_bias_def drop_block_def ksize_pad_def name_and_def
      py_upper_def upper_char_def py_lower_def lower_char_def Let_def)

text \<open>
  For every other \<open>output_channel\<close> the residual branch of \<open>res_MBConv\<close> is built in the
  order of claim C7: pre-activation batch norm, 1\<times>1 expansion to
  \<open>input_channel * expansion\<close> channels, 3\<times>3 depthwise convolution with the block's stride,
  squeeze-excite with ratio \<open>se_ratio / expansion\<close> exactly when \<open>se_ratio\<close> is nonzero,
  1\<times>1 projection to \<open>output_channel\<close>, stochastic depth, and the sum with the shortcut.
\<close>

lemma res_MBConv_order:
  assumes "output_channel \<noteq> 1" and "kchannels inputs * expansion \<noteq> 1" and "expansion \<noteq> 0"
  shows "res_MBConv inputs output_channel conv_short_cut strides expansion se_ratio drop_rate
           activation name =
    Inr (let bn = (\<lambda>x nm. batchnorm_with_activation x activation False False (Some (name @ nm)));
             preact = bn inputs ''preact_'';
             shortcut = (if conv_short_cut
               then Apply (Conv2D output_channel (KInt 1) 1 ''VALID'' False 1
                             (Some (name @ ''shortcut_conv'')))
                      [if strides > 1
                       then Apply (AvgPool2D strides strides ''SAME'' (Some (name @ ''shortcut_pool'')))
                              [preact]
                       else preact]
               else inputs);
             nn = Apply (Conv2D (kchannels inputs * expansion) (KInt 1) 1 ''VALID'' False 1
                           (Some (name @ ''expand_conv''))) [preact];
             nn = bn nn ''expand_'';
             nn = Apply (DepthwiseConv2D (KInt 3) strides ''valid'' False (Some (name @ ''MB_dw_conv'')))
                    [Apply (ZeroPadding2D 1 (Some (name @ ''MB_dw_pad''))) [nn]];
             nn = bn nn ''MB_dw_'';
             nn = (if se_ratio \<noteq> 0
                   then se_module nn (se_ratio / real_of_int expansion) 8 activation True
                          (Some (name @ ''se_''))
                   else nn);
             nn = Apply (Conv2D output_channel (KInt 1) 1 ''VALID'' False 1
                           (Some (name @ ''MB_pw_conv''))) [nn];
             nn = drop_block nn drop_rate (Some name)
         in Apply Add [shortcut, nn])"
  using assms
  by (simp add: res_MBConv_def conv2d_no_bias_def depthwise_conv2d_no_bias_def ksize_pad_def
      name_and_def py_upper_def upper_char_def py_truediv_def Let_def)

section \<open>Values of layer graphs\<close>

text \<open>
  A layer graph is run on a model input \<open>x\<close> in an environment that holds what the framework
  keeps outside the graph: the kernel, bias and PReLU slope of each layer (a function of the
  element's index, keyed by the node the layer produces, since every call of a builder creates a
  new layer), the activation functions the framework knows by name, whether the model runs in
  training mode, and the uniform random numbers in \<open>[0, 1)\<close> a \<open>Dropout\<close> layer draws.
\<close>

record env =
  kernel_of :: "ktensor \<Rightarrow> nat list \<Rightarrow> real"
  bias_of :: "ktensor \<Rightarrow> nat list \<Rightarrow> real"
  alpha_of :: "ktensor \<Rightarrow> nat list \<Rightarrow> real"
  activation_of :: "string \<Rightarrow> (real \<Rightarrow> real) option"
  is_training :: bool
  noise_of :: "ktensor \<Rightarrow> nat list \<Rightarrow> real"

text \<open>
  Elementwise operations and NumPy broadcasting of two tensors of the same rank: a dimension
  of size 1 is stretched to the other tensor's size.
\<close>

definition tmap :: "('a \<Rightarrow> 'b) \<Rightarrow> 'a tensor \<Rightarrow> 'b tensor" where
  "tmap f t = tabulate (shape t) (\<lambda>idx. f (tget t idx))"

definition broadcast_index :: "nat list \<Rightarrow> nat list \<Rightarrow> nat list" where
  "broadcast_index s idx = map2 (\<lambda>n i. if n = 1 then 0 else i) s idx"

definition broadcastable :: "nat list \<Rightarrow> nat list \<Rightarrow> bool" where
  "broadcastable sa sb \<longleftrightarrow>
     length sa = length sb \<and> list_all (\<lambda>(a, b). a = b \<or> a = 1 \<or> b = 1) (zip sa sb)"

definition broadcast2 ::
  "('a \<Rightarrow> 'b \<Rightarrow> 'c) \<Rightarrow> 'a tensor \<Rightarrow> 'b tensor \<Rightarrow> error + 'c tensor" where
  "broadcast2 f a b =
     (if broadcastable (shape a) (shape b)
      then Inr (tabulate (map2 (\<lambda>m n. if m = 1 then n else m) (shape a) (shape b))
                  (\<lambda>idx. f (tget a (broadcast_index (shape a) idx))
                            (tget b (broadcast_index (shape b) idx))))
      else Inl ValueError)"

text \<open>
  \<open>Multiply\<close> and \<open>Add\<close> take a list of at least two tensors and combine them from the left.
\<close>

fun merge_layer :: "(real \<Rightarrow> real \<Rightarrow> real) \<Rightarrow> real tensor list \<Rightarrow> error + real tensor" where
  "merge_layer f [] = Inl ValueError"
| "merge_layer f [a] = Inr a"
| "merge_layer f (a # b # r) = ebind (broadcast2 f a b) (\<lambda>c. merge_layer f (c # r))"

text \<open>
  \<^verbatim>\<open>tf.reduce_mean(x, axes, keepdims)\<close>: the mean over the listed axes; with \<open>keepdims\<close> the
  reduced axes stay with size 1. (The mean over no element is \<open>NaN\<close> in the framework and
  \<open>0\<close> here; the theorems below take non-empty spatial axes.)
\<close>

definition tf_reduce_mean :: "real tensor \<Rightarrow> nat list \<Rightarrow> bool \<Rightarrow> real tensor" where
  "tf_reduce_mean x axes keepdims =
     (let s = shape x;
          red = map (\<lambda>k. if k \<in> set axes then s ! k else 1) [0..<length s];
          keep = map (\<lambda>k. if k \<in> set axes then 1 else s ! k) [0..<length s];
          m = tabulate keep
                (\<lambda>idx. sum_list (map (\<lambda>d. tget x (map2 (+) idx d)) (indices red))
                        / real (prod_list red))
      in if keepdims then m
         else m\<lparr>shape := map (\<lambda>k. s ! k) (filter (\<lambda>k. k \<notin> set axes) [0..<length s])\<rparr>)"

text \<open>
  \<^verbatim>\<open>tf.nn.conv2d\<close> with \<open>VALID\<close> padding on \<open>[batch, height, width, channels]\<close> with a
  kernel \<open>[kh, kw, channels, filters]\<close>:
  \<open>out[b, i, j, o] = \<Sum> di dj c. x[b, i * strides + di, j * strides + dj, c] * kernel[di, dj, c, o]\<close>.
\<close>

definition tf_conv2d :: "real tensor \<Rightarrow> real tensor \<Rightarrow> nat \<Rightarrow> error + real tensor" where
  "tf_conv2d x kern strides =
     (case (shape x, shape kern) of
        ([B, H, W, C], [kh, kw, ci, F]) \<Rightarrow>
          if ci \<noteq> C \<or> strides = 0 \<or> kh = 0 \<or> kw = 0 \<or> H < kh \<or> W < kw then Inl ValueError
          else Inr (tabulate [B, (H - kh) div strides + 1, (W - kw) div strides + 1, F]
                 (\<lambda>idx. sum_list (map (\<lambda>d. tget x [idx ! 0, idx ! 1 * strides + d ! 0,
                                                    idx ! 2 * strides + d ! 1, d ! 2]
                                            * tget kern [d ! 0, d ! 1, d ! 2, idx ! 3])
                                      (indices [kh, kw, C]))))
      | _ \<Rightarrow> Inl ValueError)"

definition bias_add :: "real tensor \<Rightarrow> real tensor \<Rightarrow> real tensor" where
  "bias_add y b = tabulate (shape y) (\<lambda>idx. tget y idx + tget b [last idx])"

text \<open>
  The activations: \<open>hard_swish\<close> is the function of \<^verbatim>\<open>common_layers\<close>,
  \<^verbatim>\<open>inputs * tf.nn.relu6(inputs + 3) / 6\<close>; \<open>sigmoid\<close>, \<open>relu\<close> and \<open>softmax\<close> (over the last
  axis) are the framework's; any other name is looked up in the environment, and an unknown
  name raises.
\<close>

definition sigmoid :: "real \<Rightarrow> real" where "sigmoid x = 1 / (1 + exp (- x))"
definition relu :: "real \<Rightarrow> real" where "relu x = max x 0"
definition relu6 :: "real \<Rightarrow> real" where "relu6 x = min (max x 0) 6"

definition tf_softmax :: "real tensor \<Rightarrow> real tensor" where
  "tf_softmax x =
     tabulate (shape x)
       (\<lambda>idx. exp (tget x idx)
              / sum_list (map (\<lambda>k. exp (tget x (butlast idx @ [k]))) [0..<last (shape x)]))"

definition apply_activation :: "env \<Rightarrow> activation_fn \<Rightarrow> real tensor \<Rightarrow> error + real tensor" where
  "apply_activation e fn v =
     (case fn of
        hard_swish \<Rightarrow> Inr (tmap (\<lambda>x. x * relu6 (x + 3) / 6) v)
      | ByName s \<Rightarrow>
          if s = ''sigmoid'' then Inr (tmap sigmoid v)
          else if s = ''relu'' then Inr (tmap relu v)
          else if s = ''softmax'' then (if shape v = [] then Inl ValueError else Inr (tf_softmax v))
          else (case activation_of e s of
                  None \<Rightarrow> Inl ValueError
                | Some f \<Rightarrow> Inr (tmap f v)))"

definition ksize_pair :: "ksize \<Rightarrow> nat \<times> nat" where
  "ksize_pair k = (case k of KInt n \<Rightarrow> (n, n) | KPair a b \<Rightarrow> (a, b))"

text \<open>
  \<^verbatim>\<open>tf.nn.dropout(x, rate, noise_shape)\<close>: with \<open>random_tensor\<close> uniform of shape \<open>noise_shape\<close>,
  an element is kept and scaled by \<open>1 / (1 - rate)\<close> where \<open>random_tensor >= rate\<close> and set to
  0 elsewhere, \<open>random_tensor\<close> being broadcast to the shape of \<open>x\<close>. The rate has to be
  in \<open>[0, 1)\<close>. The layer \<open>Dropout\<close> refuses a rate outside \<open>[0, 1]\<close>, replaces a \<open>None\<close> of
  its noise shape by the size of the input there, and is the identity outside training.
\<close>

definition tf_nn_dropout ::
  "real tensor \<Rightarrow> real \<Rightarrow> real tensor \<Rightarrow> error + real tensor" where
  "tf_nn_dropout x rate random_tensor =
     (if rate < 0 \<or> 1 \<le> rate then Inl ValueError
      else if rate = 0 then Inr x
      else broadcast2 (\<lambda>a u. if rate \<le> u then a * (1 / (1 - rate)) else 0) x random_tensor)"

text \<open>
  The value of one layer on the values of its inputs. Grouped and \<open>SAME\<close>-padded convolutions,
  depthwise convolutions, batch normalisation and pooling are not given a value.
\<close>

fun apply_layer :: "env \<Rightarrow> ktensor \<Rightarrow> layer \<Rightarrow> real tensor list \<Rightarrow> error + real tensor" where
  "apply_layer e node (reduce_mean axes keepdims) [v] = Inr (tf_reduce_mean v axes keepdims)"
| "apply_layer e node (Conv2D filters kernel_size strides padding use_bias groups nm) [v] =
     (if filters \<le> 0 then Inl ValueError
      else if groups \<noteq> 1 \<or> py_upper padding \<noteq> ''VALID'' then Inl Unsupported
      else if length (shape v) \<noteq> 4 then Inl ValueError
      else (let (kh, kw) = ksize_pair kernel_size;
                kern = tabulate [kh, kw, shape v ! 3, nat filters] (kernel_of e node)
            in ebind (tf_conv2d v kern strides)
                 (\<lambda>y. Inr (if use_bias then bias_add y (tabulate [nat filters] (bias_of e node))
                           else y))))"
| "apply_layer e node (Activation fn nm) [v] = apply_activation e fn v"
| "apply_layer e node (PReLU shared_axes alpha nm) [v] =
     (if shape v = [] then Inl ValueError
      else (let a = tabulate (map (\<lambda>k. if k \<in> set shared_axes then 1 else shape v ! k)
                                [1..<length (shape v)]) (alpha_of e node)
            in Inr (tabulate (shape v)
                      (\<lambda>idx. max (tget v idx) 0
                             + tget a (broadcast_index (shape a) (tl idx)) * min (tget v idx) 0))))"
| "apply_layer e node (Multiply nm) vs =
     (if length vs < 2 then Inl ValueError else merge_layer (*) vs)"
| "apply_layer e node Add vs =
     (if length vs < 2 then Inl ValueError else merge_layer (+) vs)"
| "apply_layer e node (Dropout rate noise_shape nm) [v] =
     (if rate < 0 \<or> 1 < rate then Inl ValueError
      else if \<not> is_training e then Inr v
      else if length noise_shape \<noteq> length (shape v) then Inl ValueError
      else tf_nn_dropout v rate
             (tabulate (map2 (\<lambda>n d. case n of None \<Rightarrow> d | Some k \<Rightarrow> k) noise_shape (shape v))
                (noise_of e node)))"
| "apply_layer e node (ZeroPadding2D p nm) [v] =
     (if length (shape v) \<noteq> 4 then Inl ValueError
      else Inr (tf_pad v [(0, 0), (p, p), (p, p), (0, 0)]))"
| "apply_layer e node l vs = Inl Unsupported"

text \<open>The value of a graph on the model input \<open>x\<close>.\<close>

fun run :: "env \<Rightarrow> real tensor \<Rightarrow> ktensor \<Rightarrow> error + real tensor"
  and run_args :: "env \<Rightarrow> real tensor \<Rightarrow> ktensor list \<Rightarrow> error + real tensor list" where
  "run e x (Input s) = (if wf x \<and> shape x \<noteq> [] \<and> tl (shape x) = s then Inr x else Inl ValueError)"
| "run e x (Apply l ts) = ebind (run_args e x ts) (apply_layer e (Apply l ts) l)"
| "run_args e x [] = Inr []"
| "run_args e x (t # ts) =
     ebind (run e x t) (\<lambda>v. ebind (run_args e x ts) (\<lambda>vs. Inr (v # vs)))"

lemma sigmoid_bounds: "0 < sigmoid x \<and> sigmoid x < 1"
proof -
  have "0 < exp (- x)" by simp
  then show ?thesis unfolding sigmoid_def by (simp add: add_pos_pos)
qed

text \<open>An environment for evaluating graphs on concrete inputs.\<close>

definition e0 :: env where
  "e0 = \<lparr>kernel_of = (\<lambda>node idx. 1), bias_of = (\<lambda>node idx. 0), alpha_of = (\<lambda>node idx. 1 / 4),
         activation_of = (\<lambda>s. None), is_training = True,
         noise_of = (\<lambda>node idx. if hd idx = 0 then 0 else 1)\<rparr>"

section \<open>\<^verbatim>\<open>common_layers.drop_block\<close>\<close>

lemma broadcast_index_valid: "valid_index s idx \<Longrightarrow> broadcast_index s idx = idx"
proof (induction s idx rule: valid_index.induct)
  case 1
  then show ?case by (simp add: broadcast_index_def)
next
  case (2 n s i idx)
  then show ?case by (auto simp add: broadcast_index_def)
qed simp_all

lemma broadcast_index_ones:
  "length idx = n \<Longrightarrow> broadcast_index (replicate n (Suc 0)) idx = replicate n 0"
proof (induction n arbitrary: idx)
  case 0
  then show ?case by (simp add: broadcast_index_def)
next
  case (Suc n)
  then obtain i r where "idx = i # r" "length r = n" by (cases idx) auto
  with Suc.IH [of r] show ?case by (simp add: broadcast_index_def)
qed

lemma broadcastable_ones: "broadcastable s (replicate (length s) (Suc 0))"
  unfolding broadcastable_def by (induction s) simp_all

lemma broadcast_shape_ones:
  "map2 (\<lambda>m n. if m = 1 then n else m) s (replicate (length s) (Suc 0)) = s"
  by (induction s) simp_all

lemma noise_shape_resolved:
  "map2 (\<lambda>n d. case n of None \<Rightarrow> d | Some k \<Rightarrow> k) (None # replicate (length rest) (Some (Suc 0)))
     (B # rest) = B # replicate (length rest) (Suc 0)"
proof -
  have "map2 (\<lambda>n d. case n of None \<Rightarrow> d | Some k \<Rightarrow> k) (replicate (length rest) (Some (Suc 0))) rest
      = replicate (length rest) (Suc 0)"
    by (induction rest) simp_all
  then show ?thesis by simp
qed

lemma run_unary:
  "run e x t = Inr v \<Longrightarrow> run e x (Apply l [t]) = apply_layer e (Apply l [t]) l [v]"
  by simp

lemma dropout_per_example:
  assumes sv: "shape v = B # rest" and r0: "0 < rate" and r1: "rate < 1"
  shows "tf_nn_dropout v rate (tabulate (B # replicate (length rest) (Suc 0)) u)
       = Inr (tabulate (B # rest)
                (\<lambda>idx. if rate \<le> u (hd idx # replicate (length rest) 0)
                       then tget v idx * (1 / (1 - rate)) else 0))"
proof -
  have bc: "broadcastable (B # rest) (B # replicate (length rest) (Suc 0))"
    using broadcastable_ones [of rest] by (simp add: broadcastable_def)
  have bs: "map2 (\<lambda>m n. if m = 1 then n else m) (B # rest) (B # replicate (length rest) (Suc 0))
      = B # rest"
    using broadcast_shape_ones [of rest] by simp
  have "tabulate (B # rest)
          (\<lambda>idx. if rate \<le> tget (tabulate (B # replicate (length rest) (Suc 0)) u)
                               (broadcast_index (B # replicate (length rest) (Suc 0)) idx)
                 then tget v (broadcast_index (B # rest) idx) * (1 / (1 - rate)) else 0)
      = tabulate (B # rest)
          (\<lambda>idx. if rate \<le> u (hd idx # replicate (length rest) 0)
                 then tget v idx * (1 / (1 - rate)) else 0)"
  proof (rule tabulate_cong)
    fix idx assume v: "valid_index (B # rest) idx"
    then obtain b r where idx: "idx = b # r" and b: "b < B" and r: "valid_index rest r"
      by (cases idx) auto
    have lr: "length r = length rest" using valid_index_length [OF r] .
    have bi: "broadcast_index (B # replicate (length rest) (Suc 0)) idx
        = b # replicate (length rest) 0"
      using broadcast_index_ones [OF lr] b unfolding idx by (simp add: broadcast_index_def)
    have vi: "valid_index (B # replicate (length rest) (Suc 0)) (b # replicate (length rest) 0)"
      using b by (simp, induction rest) simp_all
    show "(if rate \<le> tget (tabulate (B # replicate (length rest) (Suc 0)) u)
                               (broadcast_index (B # replicate (length rest) (Suc 0)) idx)
                 then tget v (broadcast_index (B # rest) idx) * (1 / (1 - rate)) else 0)
        = (if rate \<le> u (hd idx # replicate (length rest) 0)
                 then tget v idx * (1 / (1 - rate)) else 0)"
      unfolding bi broadcast_index_valid [OF v] tget_tabulate [OF vi] by (simp add: idx)
  qed
  then show ?thesis
    using r0 r1 bc bs unfolding tf_nn_dropout_def broadcast2_def sv by simp
qed



section \<open>\<^verbatim>\<open>common_layers.se_module\<close>\<close>

text \<open>
  The activation names for which \<open>activation_by_name\<close> builds a layer that has a value.
\<close>

definition activation_ok :: "env \<Rightarrow> string \<Rightarrow> bool" where
  "activation_ok e a \<longleftrightarrow>
     a = ''hard_swish'' \<or> py_lower a = ''prelu'' \<or> a = [] \<or> a = ''sigmoid'' \<or> a = ''relu''
     \<or> a = ''softmax'' \<or> (case activation_of e a of None \<Rightarrow> False | Some f \<Rightarrow> True)"

lemma make_divisible_pos: "0 < divisor \<Longrightarrow> 0 < make_divisible vv divisor None"
  unfolding make_divisible_def Let_def by (simp split: if_splits) linarith

lemma shape_tmap [simp]: "shape (tmap f t) = shape t"
  by (simp add: tmap_def)

lemma apply_activation_shape:
  assumes "shape v \<noteq> []"
    and "fn = hard_swish \<or> (\<exists>a. fn = ByName a \<and> (a = ''sigmoid'' \<or> a = ''relu'' \<or> a = ''softmax''
           \<or> activation_of e a \<noteq> None))"
  shows "\<exists>w. apply_activation e fn v = Inr w \<and> shape w = shape v"
  using assms unfolding apply_activation_def
  by (auto simp add: tf_softmax_def split: activation_fn.splits option.splits)

lemma run_activation_by_name:
  assumes "run e x t = Inr v" and "shape v \<noteq> []" and "activation_ok e a"
  shows "\<exists>w. run e x (activation_by_name t a name) = Inr w \<and> shape w = shape v"
proof (cases "a = ''hard_swish''")
  case True
  then show ?thesis
    using assms(1) apply_activation_shape [OF assms(2), of hard_swish e]
    by (simp add: activation_by_name_def Let_def)
next
  case nh: False
  show ?thesis
  proof (cases "py_lower a = ''prelu''")
    case True
    then show ?thesis using nh assms(1,2) by (simp add: activation_by_name_def Let_def)
  next
    case np: False
    show ?thesis
    proof (cases "a = []")
      case True
      then show ?thesis using nh np assms(1) by (simp add: activation_by_name_def Let_def)
    next
      case False
      with nh np assms(3) have "a = ''sigmoid'' \<or> a = ''relu'' \<or> a = ''softmax''
           \<or> activation_of e a \<noteq> None"
        unfolding activation_ok_def by (auto split: option.splits)
      then have "\<exists>w. apply_activation e (ByName a) v = Inr w \<and> shape w = shape v"
        using apply_activation_shape [OF assms(2), of "ByName a" e] by blast
      then show ?thesis using nh np False assms(1) by (simp add: activation_by_name_def Let_def)
    qed
  qed
qed

lemma run_unary_cong:
  "run e x t = run e x' t \<Longrightarrow> run e x (Apply l [t]) = run e x' (Apply l [t])"
  by simp

lemma run_activation_by_name_cong:
  "run e x t = run e x' t \<Longrightarrow>
   run e x (activation_by_name t a name) = run e x' (activation_by_name t a name)"
  by (simp add: activation_by_name_def Let_def)

lemma shape_reduce_mean4:
  "shape v = [B, H, W, C] \<Longrightarrow> shape (tf_reduce_mean v [1, 2] True) = [B, 1, 1, C]"
  by (simp add: tf_reduce_mean_def Let_def)

lemma conv1x1_shape:
  assumes "shape m = [B, 1, 1, Cin]" and "0 < F"
  shows "\<exists>y. apply_layer e node (Conv2D F (KInt 1) 1 ''valid'' ub 1 nm) [m] = Inr y
           \<and> shape y = [B, 1, 1, nat F]"
  using assms
  by (simp add: py_upper_def upper_char_def ksize_pair_def tf_conv2d_def bias_add_def)

lemma sigmoid_by_name:
  "\<exists>ln. activation_by_name t ''sigmoid'' name = Apply (Activation (ByName ''sigmoid'') ln) [t]"
  by (simp add: activation_by_name_def Let_def py_lower_def lower_char_def)

lemma multiply_gate:
  assumes sv: "shape v = [B, H, W, C]" and sg: "shape gate = [B, 1, 1, C]"
  shows "broadcast2 (*) v gate
       = Inr (tabulate [B, H, W, C] (\<lambda>idx. tget v idx * tget gate [idx ! 0, 0, 0, idx ! 3]))"
proof -
  have bc: "broadcastable [B, H, W, C] [B, 1, 1, C]" by (simp add: broadcastable_def)
  have bs: "map2 (\<lambda>m n. if m = 1 then n else m) [B, H, W, C] [B, 1, 1, C] = [B, H, W, C]"
    by simp
  have "tabulate [B, H, W, C]
          (\<lambda>idx. tget v (broadcast_index [B, H, W, C] idx)
                 * tget gate (broadcast_index [B, 1, 1, C] idx))
      = tabulate [B, H, W, C] (\<lambda>idx. tget v idx * tget gate [idx ! 0, 0, 0, idx ! 3])"
  proof (rule tabulate_cong)
    fix idx assume v: "valid_index [B, H, W, C] idx"
    then obtain b i j c where idx: "idx = [b, i, j, c]" and b: "b < B" and c: "c < C"
      by (rule valid_index4E) auto
    have "broadcast_index [B, 1, 1, C] idx = [b, 0, 0, c]"
      using b c unfolding idx by (auto simp add: broadcast_index_def)
    then show "tget v (broadcast_index [B, H, W, C] idx)
                 * tget gate (broadcast_index [B, 1, 1, C] idx)
        = tget v idx * tget gate [idx ! 0, 0, 0, idx ! 3]"
      unfolding broadcast_index_valid [OF v] by (simp add: idx)
  qed
  then show ?thesis using bc bs unfolding broadcast2_def sv sg by simp
qed

lemma run_conv1x1:
  assumes "run e x t = Inr m" and "shape m = [B, 1, 1, Cin]" and "0 < F"
  shows "\<exists>y. run e x (Apply (Conv2D F (KInt 1) 1 ''valid'' ub 1 nm) [t]) = Inr y
           \<and> shape y = [B, 1, 1, nat F]"
  unfolding run_unary [OF assms(1)] by (rule conv1x1_shape [OF assms(2,3)])

lemma sum_list_concat_real:
  fixes xss :: "real list list"
  shows "sum_list (concat xss) = sum_list (map sum_list xss)"
  by (induction xss) simp_all

lemma indices_HW1:
  "map (\<lambda>d. f (0 # d)) (indices [H, W, Suc 0])
     = concat (map (\<lambda>i. map (\<lambda>j. f [0, i, j, 0]) [0..<W]) [0..<H])"
  by (simp add: map_concat o_def)

lemma reduce_mean_spatial:
  assumes sv: "shape v = [B, H, W, C]" and b: "b < B" and c: "c < C"
  shows "tget (tf_reduce_mean v [1, 2] True) [b, 0, 0, c]
       = (\<Sum>i\<leftarrow>[0..<H]. \<Sum>j\<leftarrow>[0..<W]. tget v [b, i, j, c]) / real (H * W)"
proof -
  have vi: "valid_index [B, Suc 0, Suc 0, C] [b, 0, 0, c]" using b c by simp
  have "tget (tf_reduce_mean v [1, 2] True) [b, 0, 0, c]
      = sum_list (map (\<lambda>d. tget v (map2 (+) [b, 0, 0, c] d)) (indices [Suc 0, H, W, Suc 0]))
        / real (H * W)"
    using vi by (simp add: tf_reduce_mean_def Let_def sv del: indices.simps)
  also have "map (\<lambda>d. tget v (map2 (+) [b, 0, 0, c] d)) (indices [Suc 0, H, W, Suc 0])
      = map (\<lambda>d. tget v (map2 (+) [b, 0, 0, c] (0 # d))) (indices [H, W, Suc 0])"
    by (simp add: o_def del: indices.simps) (simp add: indices.simps(2) [of "Suc 0"] o_def del: indices.simps)
  also have "\<dots> = concat (map (\<lambda>i. map (\<lambda>j. tget v (map2 (+) [b, 0, 0, c] [0, i, j, 0])) [0..<W]) [0..<H])"
    by (rule indices_HW1)
  also have "sum_list \<dots> = (\<Sum>i\<leftarrow>[0..<H]. \<Sum>j\<leftarrow>[0..<W]. tget v [b, i, j, c])"
    by (simp add: sum_list_concat_real o_def)
  finally show ?thesis .
qed



end
